theory Spec2Isabelle
  imports Main "HOL-Library.Word" "HOL-Library.Sublist"
begin

section \<open>Python values used by ServerSocket.py\<close>

text \<open>
  A \<open>bytes\<close> object is a list of 8-bit words. A Python \<open>str\<close> is a sequence of Unicode
  code points, so it is a list of naturals (an Isabelle \<open>char\<close> has only eight bits).
  \<open>lit\<close> turns an ASCII literal of the source into such a string.
\<close>

type_synonym byte = "8 word"
type_synonym pystr = "nat list"

definition lit :: "string \<Rightarrow> pystr" where
  "lit s = map of_char s"

text \<open>The line feed \<open>'\n'\<close>, the delimiter of the inbound protocol.\<close>

abbreviation NL :: nat where
  "NL \<equiv> 10"

subsection \<open>Exceptions\<close>

text \<open>
  The exception classes the two workers name in their \<open>except\<close> clauses, and the ones the
  calls they make can raise. \<open>bases\<close> lists a class with all its ancestors below
  \<open>BaseException\<close>, as Python 3 defines them: \<open>socket.timeout\<close> derives from \<open>OSError\<close>
  (since 3.10 it is \<open>TimeoutError\<close> itself), \<open>ConnectionResetError\<close> and \<open>BrokenPipeError\<close>
  derive from \<open>ConnectionError\<close> and so from \<open>OSError\<close>, \<open>json.JSONDecodeError\<close> and
  \<open>UnicodeEncodeError\<close> derive from \<open>ValueError\<close>, \<open>RecursionError\<close> (which \<open>json.loads\<close>
  raises on text nested too deep) from \<open>RuntimeError\<close>.
\<close>

datatype pyclass =
    Exception
  | OSError
  | socket_timeout
  | ConnectionError
  | ConnectionResetError
  | BrokenPipeError
  | ValueError
  | JSONDecodeError
  | UnicodeError
  | UnicodeEncodeError
  | AttributeError
  | RuntimeError
  | RecursionError

fun bases :: "pyclass \<Rightarrow> pyclass list" where
  "bases Exception = [Exception]"
| "bases OSError = [OSError, Exception]"
| "bases socket_timeout = [socket_timeout, OSError, Exception]"
| "bases ConnectionError = [ConnectionError, OSError, Exception]"
| "bases ConnectionResetError = [ConnectionResetError, ConnectionError, OSError, Exception]"
| "bases BrokenPipeError = [BrokenPipeError, ConnectionError, OSError, Exception]"
| "bases ValueError = [ValueError, Exception]"
| "bases JSONDecodeError = [JSONDecodeError, ValueError, Exception]"
| "bases UnicodeError = [UnicodeError, ValueError, Exception]"
| "bases UnicodeEncodeError = [UnicodeEncodeError, UnicodeError, ValueError, Exception]"
| "bases AttributeError = [AttributeError, Exception]"
| "bases RuntimeError = [RuntimeError, Exception]"
| "bases RecursionError = [RecursionError, RuntimeError, Exception]"

text \<open>A raised exception: its class and the text \<open>str(e)\<close> that an f-string prints.\<close>

datatype exn = Exn pyclass pystr

fun exn_class :: "exn \<Rightarrow> pyclass" where
  "exn_class (Exn c m) = c"

fun exn_str :: "exn \<Rightarrow> pystr" where
  "exn_str (Exn c m) = m"

text \<open>\<open>except C\<close> catches \<open>e\<close> when \<open>isinstance(e, C)\<close>.\<close>

definition isinstance :: "exn \<Rightarrow> pyclass \<Rightarrow> bool" where
  "isinstance e c = (c \<in> set (bases (exn_class e)))"

subsection \<open>Strings\<close>

text \<open>
  \<open>str.isspace\<close> for one character: the code points CPython's
  \<open>_PyUnicode_IsWhitespace\<close> accepts.
\<close>

definition py_isspace :: "nat \<Rightarrow> bool" where
  "py_isspace c =
     ((0x09 \<le> c \<and> c \<le> 0x0D) \<or> (0x1C \<le> c \<and> c \<le> 0x20) \<or> c = 0x85 \<or> c = 0xA0
      \<or> c = 0x1680 \<or> (0x2000 \<le> c \<and> c \<le> 0x200A) \<or> c = 0x2028 \<or> c = 0x2029
      \<or> c = 0x202F \<or> c = 0x205F \<or> c = 0x3000)"

text \<open>\<open>s.strip()\<close>: leading and trailing whitespace removed.\<close>

definition py_strip :: "pystr \<Rightarrow> pystr" where
  "py_strip s = rev (dropWhile py_isspace (rev (dropWhile py_isspace s)))"

text \<open>
  \<open>buffer.split('\n', 1)\<close> when \<open>'\n' in buffer\<close>: the text before the first line feed and
  the text after it.
\<close>

definition split1 :: "pystr \<Rightarrow> pystr \<times> pystr" where
  "split1 buffer =
     (takeWhile (\<lambda>c. c \<noteq> NL) buffer, tl (dropWhile (\<lambda>c. c \<noteq> NL) buffer))"

subsection \<open>UTF-8\<close>

text \<open>
  \<open>bytes.decode('utf-8', errors='ignore')\<close> is a function of CPython, not of the
  repository; it is written out here after CPython's decoder (\<open>utf8_decode\<close> in
  \<open>stringlib/codecs.h\<close> with the \<open>ignore\<close> handler). A byte that cannot start a
  sequence is dropped; a lead byte followed by a wrong continuation byte is dropped with
  the continuation bytes already accepted, and decoding resumes at the offending byte; a
  sequence cut short by the end of the data is dropped whole.
\<close>

definition is_cont :: "nat \<Rightarrow> bool" where
  "is_cont c = (0x80 \<le> c \<and> c \<le> 0xBF)"

text \<open>The second byte of a three-byte and of a four-byte sequence, given the lead byte.\<close>

definition second3_ok :: "nat \<Rightarrow> nat \<Rightarrow> bool" where
  "second3_ok b c = (is_cont c \<and> \<not> (if c < 0xA0 then b = 0xE0 else b = 0xED))"

definition second4_ok :: "nat \<Rightarrow> nat \<Rightarrow> bool" where
  "second4_ok b c = (is_cont c \<and> \<not> (if c < 0x90 then b = 0xF0 else b = 0xF4))"

fun utf8_ignore :: "nat list \<Rightarrow> pystr" where
  "utf8_ignore [] = []"
| "utf8_ignore (b # bs) =
     (if b < 0x80 then b # utf8_ignore bs
      else if b < 0xC2 then utf8_ignore bs
      else if b < 0xE0 then
        (case bs of
           [] \<Rightarrow> []
         | c # cs \<Rightarrow>
             if is_cont c then ((b - 0xC0) * 64 + (c - 0x80)) # utf8_ignore cs
             else utf8_ignore bs)
      else if b < 0xF0 then
        (case bs of
           [] \<Rightarrow> []
         | c # cs \<Rightarrow>
             if \<not> second3_ok b c then utf8_ignore bs
             else
               (case cs of
                  [] \<Rightarrow> []
                | d # ds \<Rightarrow>
                    if is_cont d
                    then ((b - 0xE0) * 4096 + (c - 0x80) * 64 + (d - 0x80)) # utf8_ignore ds
                    else utf8_ignore cs))
      else if b < 0xF5 then
        (case bs of
           [] \<Rightarrow> []
         | c # cs \<Rightarrow>
             if \<not> second4_ok b c then utf8_ignore bs
             else
               (case cs of
                  [] \<Rightarrow> []
                | d # ds \<Rightarrow>
                    if \<not> is_cont d then utf8_ignore cs
                    else
                      (case ds of
                         [] \<Rightarrow> []
                       | e # es \<Rightarrow>
                           if is_cont e
                           then ((b - 0xF0) * 262144 + (c - 0x80) * 4096
                                 + (d - 0x80) * 64 + (e - 0x80)) # utf8_ignore es
                           else utf8_ignore ds)))
      else utf8_ignore bs)"

definition decode_ignore :: "byte list \<Rightarrow> pystr" where
  "decode_ignore bs = utf8_ignore (map unat bs)"

text \<open>
  Encoding to UTF-8 with the strict handler, which \<open>str.encode()\<close> and a \<open>print\<close> to a
  UTF-8 standard output both do: a surrogate code point cannot be encoded and raises
  \<open>UnicodeEncodeError\<close>. Its text, as \<open>str(e)\<close> gives it, names the first run of
  surrogates: the character and its position when the run is one character, the first
  and the last position otherwise. Code points are below \<open>0x110000\<close> in every Python
  string.
\<close>

definition surrogate :: "nat \<Rightarrow> bool" where
  "surrogate c = (0xD800 \<le> c \<and> c \<le> 0xDFFF)"

text \<open>A number in decimal digits, and four lower-case hexadecimal digits after \<open>\u\<close>.\<close>

fun decimal :: "nat \<Rightarrow> pystr" where
  "decimal n = (if n < 10 then [48 + n] else decimal (n div 10) @ [48 + n mod 10])"

definition hex_digit :: "nat \<Rightarrow> nat" where
  "hex_digit d = (if d < 10 then 48 + d else 87 + d)"

definition u_escape :: "nat \<Rightarrow> pystr" where
  "u_escape n =
     [92, 117, hex_digit (n div 4096), hex_digit ((n div 256) mod 16),
      hex_digit ((n div 16) mod 16), hex_digit (n mod 16)]"

definition unicode_encode_error :: "pystr \<Rightarrow> exn" where
  "unicode_encode_error text =
     (let i = length (takeWhile (\<lambda>c. \<not> surrogate c) text);
          run = takeWhile surrogate (drop i text)
      in Exn UnicodeEncodeError
           ([39] @ lit ''utf-8'' @ [39] @ lit '' codec can'' @ [39]
            @ (case run of
                 [c] \<Rightarrow> lit ''t encode character '' @ [39] @ u_escape c @ [39]
                          @ lit '' in position '' @ decimal i
               | _ \<Rightarrow> lit ''t encode characters in position '' @ decimal i @ [45]
                        @ decimal (i + length run - 1))
            @ lit '': surrogates not allowed''))"

definition encode_char :: "nat \<Rightarrow> nat list" where
  "encode_char c =
     (if c < 0x80 then [c]
      else if c < 0x800 then [0xC0 + c div 64, 0x80 + c mod 64]
      else if c < 0x10000 then [0xE0 + c div 4096, 0x80 + (c div 64) mod 64, 0x80 + c mod 64]
      else [0xF0 + c div 262144, 0x80 + (c div 4096) mod 64, 0x80 + (c div 64) mod 64,
            0x80 + c mod 64])"

definition encode :: "pystr \<Rightarrow> exn + byte list" where
  "encode s =
     (if list_ex surrogate s then Inl (unicode_encode_error s)
      else Inr (map of_nat (concat (map encode_char s))))"

subsection \<open>JSON values\<close>

text \<open>
  What \<open>json.loads\<close> can return: \<open>None\<close>, a \<open>bool\<close>, an \<open>int\<close>, a \<open>float\<close> (an IEEE-754
  double, kept as its bit pattern), a \<open>str\<close>, a \<open>list\<close> or a \<open>dict\<close>. A \<open>dict\<close> is an
  association list read with \<open>map_of\<close>; the parser leaves one entry per key.
\<close>

datatype json =
    JNull
  | JBool bool
  | JInt int
  | JFloat "64 word"
  | JStr pystr
  | JList "json list"
  | JDict "(pystr \<times> json) list"

fun type_name :: "json \<Rightarrow> pystr" where
  "type_name JNull = lit ''NoneType''"
| "type_name (JBool b) = lit ''bool''"
| "type_name (JInt i) = lit ''int''"
| "type_name (JFloat f) = lit ''float''"
| "type_name (JStr s) = lit ''str''"
| "type_name (JList xs) = lit ''list''"
| "type_name (JDict kvs) = lit ''dict''"

text \<open>
  \<open>obj.get(key, default)\<close>: only a \<open>dict\<close> has the method; on any other value the
  attribute lookup raises \<open>AttributeError\<close>.
\<close>

definition no_attribute_get :: "json \<Rightarrow> exn" where
  "no_attribute_get v =
     Exn AttributeError
       ([39] @ type_name v @ [39] @ lit '' object has no attribute '' @ [39] @ lit ''get'' @ [39])"

fun py_get :: "json \<Rightarrow> pystr \<Rightarrow> json \<Rightarrow> exn + json" where
  "py_get (JDict kvs) k d = Inr (case map_of kvs k of None \<Rightarrow> d | Some v \<Rightarrow> v)"
| "py_get v k d = Inl (no_attribute_get v)"

text \<open>
  The two library functions the Reader calls on values it does not control are
  parameters of the model: \<open>json.loads\<close>, which returns the parsed value or raises, and
  the text an f-string shows for a value that is not a \<open>str\<close>.
\<close>

record lib =
  json_loads :: "pystr \<Rightarrow> exn + json"
  py_repr :: "json \<Rightarrow> pystr"

text \<open>\<open>{v}\<close> inside an f-string: \<open>str(v)\<close>, which is the string itself for a \<open>str\<close>.\<close>

definition py_str :: "lib \<Rightarrow> json \<Rightarrow> pystr" where
  "py_str L v = (case v of JStr s \<Rightarrow> s | _ \<Rightarrow> py_repr L v)"

subsection \<open>json.dumps\<close>

text \<open>
  \<open>json.dumps\<close> is called once, on a \<open>dict\<close> whose key and value are \<open>str\<close>; it is
  written out for such dicts, with the defaults of the call: \<open>ensure_ascii\<close>, the
  separators \<open>', '\<close> and \<open>': '\<close>.
\<close>

definition escape_char :: "nat \<Rightarrow> pystr" where
  "escape_char c =
     (if c = 34 then [92, 34]
      else if c = 92 then [92, 92]
      else if c = 10 then [92, 110]
      else if c = 13 then [92, 114]
      else if c = 9 then [92, 116]
      else if c = 12 then [92, 102]
      else if c = 8 then [92, 98]
      else if 0x20 \<le> c \<and> c \<le> 0x7E then [c]
      else if c < 0x10000 then u_escape c
      else u_escape (0xD800 + (c - 0x10000) div 1024) @ u_escape (0xDC00 + (c - 0x10000) mod 1024))"

definition encode_basestring_ascii :: "pystr \<Rightarrow> pystr" where
  "encode_basestring_ascii s = [34] @ concat (map escape_char s) @ [34]"

fun join :: "pystr \<Rightarrow> pystr list \<Rightarrow> pystr" where
  "join sep [] = []"
| "join sep [x] = x"
| "join sep (x # y # ys) = x @ sep @ join sep (y # ys)"

definition dumps :: "(pystr \<times> pystr) list \<Rightarrow> pystr" where
  "dumps d =
     [123]
     @ join [44, 32]
         (map (\<lambda>(k, v). encode_basestring_ascii k @ [58, 32] @ encode_basestring_ascii v) d)
     @ [125]"

section \<open>The workers\<close>

text \<open>
  What a worker does to the outside, in order: a line printed, a call of \<open>json.loads\<close>,
  \<open>conn.close()\<close>, a call of \<open>conn.send\<close> with its argument, \<open>time.sleep\<close> with its
  seconds.
\<close>

datatype effect =
    Print pystr
  | Loads pystr
  | Close
  | Send "byte list"
  | Sleep nat

text \<open>
  \<open>print(text)\<close>, on a standard output that encodes UTF-8: the text is encoded before any
  of it is written, so a text with a surrogate raises and prints nothing.
\<close>

definition py_print :: "pystr \<Rightarrow> exn + effect" where
  "py_print text = (if list_ex surrogate text then Inl (unicode_encode_error text) else Inr (Print text))"

text \<open>How one pass through the body of a \<open>while True\<close> ends.\<close>

datatype flow = Next | Break | Raised exn

text \<open>
  How a loop stands when the outcomes given to it are used up: still blocked in its
  socket call (the Reader with its buffer), left by \<open>break\<close>, or left by an exception on
  its way to the outer handler.
\<close>

datatype 'a loop_end = Blocked 'a | Exited | Propagated exn

datatype 'a thread = Running 'a | Terminated

subsection \<open>Reader: \<open>read(conn, addr)\<close>\<close>

text \<open>
  \<open>addr\<close> is the text \<open>{addr}\<close> prints for the peer address. The three log lines of the
  dispatch, as the f-strings build them.
\<close>

definition heartbeat_log :: "pystr \<Rightarrow> pystr \<Rightarrow> pystr" where
  "heartbeat_log addr login =
     lit ''[INFO] Heartbeat from '' @ addr @ lit '' (login: '' @ login @ lit '')''"

definition message_log :: "pystr \<Rightarrow> pystr \<Rightarrow> pystr \<Rightarrow> pystr" where
  "message_log addr msg_type line =
     lit ''[INFO] Message from '' @ addr @ lit '' (type: '' @ msg_type @ lit ''): ''
     @ take 200 line @ lit ''...''"

definition invalid_json_log :: "pystr \<Rightarrow> pystr \<Rightarrow> pystr" where
  "invalid_json_log addr line = lit ''[WARN] Invalid JSON from '' @ addr @ lit '': '' @ take 100 line"

text \<open>
  Lines 43 to 50, the body of the inner \<open>try\<close>: the effects made and the exception that
  ended it, if any. The two lines printed here show a value that \<open>json.loads\<close> returned,
  and such a value can hold a surrogate (the line \<open>"\ud83d"\<close> parses to one), so these
  are the \<open>print\<close> calls that can raise. The other lines the workers print hold the peer
  address, which is the text of an IP address and a port, text that \<open>decode_ignore\<close>
  returned (the decoder accepts no encoding of a surrogate) and the text of an
  exception; they are printed as they are.
\<close>

definition dispatch :: "lib \<Rightarrow> pystr \<Rightarrow> pystr \<Rightarrow> effect list \<times> exn option" where
  "dispatch L addr line =
     (case json_loads L line of
        Inl e \<Rightarrow> ([Loads line], Some e)
      | Inr msg_json \<Rightarrow>
          (case py_get msg_json (lit ''type'') (JStr (lit ''unknown'')) of
             Inl e \<Rightarrow> ([Loads line], Some e)
           | Inr msg_type \<Rightarrow>
               if msg_type = JStr (lit ''heartbeat'') then
                 (case py_get msg_json (lit ''login'') (JStr (lit ''unknown'')) of
                    Inl e \<Rightarrow> ([Loads line], Some e)
                  | Inr login \<Rightarrow>
                      (case py_print (heartbeat_log addr (py_str L login)) of
                         Inl e \<Rightarrow> ([Loads line], Some e)
                       | Inr printed \<Rightarrow> ([Loads line, printed], None)))
               else
                 (case py_print (message_log addr (py_str L msg_type) line) of
                    Inl e \<Rightarrow> ([Loads line], Some e)
                  | Inr printed \<Rightarrow> ([Loads line, printed], None))))"

text \<open>
  Lines 41 to 52: the blank test, the dispatch and \<open>except json.JSONDecodeError\<close>.
\<close>

definition handle_line :: "lib \<Rightarrow> pystr \<Rightarrow> pystr \<Rightarrow> effect list \<times> exn option" where
  "handle_line L addr line =
     (if py_strip line \<noteq> [] then
        (case dispatch L addr line of
           (es, Some e) \<Rightarrow>
             if isinstance e JSONDecodeError
             then (es @ [Print (invalid_json_log addr line)], None)
             else (es, Some e)
         | (es, None) \<Rightarrow> (es, None))
      else ([], None))"

text \<open>
  Lines 39 to 52, the loop \<open>while '\n' in buffer\<close>: the effects, the buffer when the loop
  is left, and the exception that left it, if any.
\<close>

function drain :: "lib \<Rightarrow> pystr \<Rightarrow> pystr \<Rightarrow> effect list \<times> pystr \<times> exn option" where
  "drain L addr buffer =
     (if NL \<in> set buffer then
        (case handle_line L addr (fst (split1 buffer)) of
           (es, Some e) \<Rightarrow> (es, snd (split1 buffer), Some e)
         | (es, None) \<Rightarrow>
             (case drain L addr (snd (split1 buffer)) of (es', r) \<Rightarrow> (es @ es', r)))
      else ([], buffer, None))"
  by pat_completeness auto
termination
proof (relation "measure (\<lambda>(L, addr, buffer). length buffer)")
  show "wf (measure (\<lambda>(L, addr, buffer). length buffer))"
    by simp
next
  fix L :: lib and addr buffer :: pystr and x es y
  assume nl: "NL \<in> set buffer"
  have ne: "dropWhile (\<lambda>c. c \<noteq> NL) buffer \<noteq> []"
    using nl by (simp add: dropWhile_eq_Nil_conv)
  have "length (tl (dropWhile (\<lambda>c. c \<noteq> NL) buffer)) < length (dropWhile (\<lambda>c. c \<noteq> NL) buffer)"
    using ne by (cases "dropWhile (\<lambda>c. c \<noteq> NL) buffer") simp_all
  also have "\<dots> \<le> length buffer"
    by (rule length_dropWhile_le)
  finally show "((L, addr, snd (split1 buffer)), (L, addr, buffer))
      \<in> measure (\<lambda>(L, addr, buffer). length buffer)"
    by (simp add: split1_def)
qed

declare drain.simps [simp del]

text \<open>One outcome of \<open>conn.recv(1024)\<close>: the bytes returned, or the exception raised.\<close>

datatype recv_result = RecvBytes "byte list" | RecvRaises exn

text \<open>Lines 31 to 52, the body of the outer \<open>try\<close> of the loop.\<close>

definition recv_body ::
  "lib \<Rightarrow> pystr \<Rightarrow> pystr \<Rightarrow> recv_result \<Rightarrow> effect list \<times> pystr \<times> flow" where
  "recv_body L addr buffer r =
     (case r of
        RecvRaises e \<Rightarrow> ([], buffer, Raised e)
      | RecvBytes bs \<Rightarrow>
          (let data = decode_ignore bs in
           if data = [] then ([], buffer, Break)
           else
             (case drain L addr (buffer @ data) of
                (es, b, None) \<Rightarrow> (es, b, Next)
              | (es, b, Some e) \<Rightarrow> (es, b, Raised e))))"

text \<open>Lines 30 to 65: the body with the three \<open>except\<close> clauses, in the source's order.\<close>

definition read_iteration ::
  "lib \<Rightarrow> pystr \<Rightarrow> pystr \<Rightarrow> recv_result \<Rightarrow> effect list \<times> pystr \<times> flow" where
  "read_iteration L addr buffer r =
     (case recv_body L addr buffer r of
        (es, b, Raised e) \<Rightarrow>
          if isinstance e socket_timeout then (es, b, Next)
          else if isinstance e ConnectionResetError
          then (es @ [Print (lit ''[INFO] Connection reset by '' @ addr)], b, Break)
          else if isinstance e BrokenPipeError
          then (es @ [Print (lit ''[INFO] Broken pipe with '' @ addr)], b, Break)
          else (es, b, Raised e)
      | (es, b, f) \<Rightarrow> (es, b, f))"

text \<open>
  Lines 29 to 65, \<open>while True\<close>, run on the outcomes of the successive \<open>recv\<close> calls.
\<close>

fun read_loop ::
  "lib \<Rightarrow> pystr \<Rightarrow> pystr \<Rightarrow> recv_result list \<Rightarrow> effect list \<times> pystr loop_end" where
  "read_loop L addr buffer [] = ([], Blocked buffer)"
| "read_loop L addr buffer (r # rs) =
     (case read_iteration L addr buffer r of
        (es, b, Next) \<Rightarrow> (case read_loop L addr b rs of (es', fin) \<Rightarrow> (es @ es', fin))
      | (es, b, Break) \<Rightarrow> (es, Exited)
      | (es, b, Raised e) \<Rightarrow> (es, Propagated e))"

text \<open>Lines 67 to 74: \<open>except Exception\<close> and \<open>finally\<close>.\<close>

definition read_finish :: "pystr \<Rightarrow> pystr loop_end \<Rightarrow> effect list \<times> pystr thread" where
  "read_finish addr fin =
     (case fin of
        Blocked b \<Rightarrow> ([], Running b)
      | Exited \<Rightarrow>
          ([Close, Print (lit ''[INFO] Connection closed with '' @ addr)], Terminated)
      | Propagated e \<Rightarrow>
          ([Print (lit ''[ERROR] read from '' @ addr @ lit '' -> '' @ exn_str e), Close,
            Print (lit ''[INFO] Connection closed with '' @ addr)], Terminated))"

text \<open>
  \<open>read\<close>: \<open>init\<close> is the exception that lines 10 to 13 let through, if any (lines 17
  to 26 swallow their own); \<open>rs\<close> are the outcomes of the \<open>recv\<close> calls. Every exception
  here is an \<open>Exception\<close>, so the outer handler catches it.
\<close>

definition read ::
  "lib \<Rightarrow> pystr \<Rightarrow> exn option \<Rightarrow> recv_result list \<Rightarrow> effect list \<times> pystr thread" where
  "read L addr init rs =
     (case init of
        Some e \<Rightarrow> read_finish addr (Propagated e)
      | None \<Rightarrow>
          (case read_loop L addr [] rs of
             (es, fin) \<Rightarrow> (case read_finish addr fin of (es', t) \<Rightarrow> (es @ es', t))))"

subsection \<open>Writer: \<open>write(conn, addr)\<close>\<close>

text \<open>Line 84: \<open>payload = { "cmd": "ACCOUNT" }\<close>.\<close>

definition payload :: "(pystr \<times> pystr) list" where
  "payload = [(lit ''cmd'', lit ''ACCOUNT'')]"

text \<open>
  One outcome of \<open>conn.send\<close>: the number of bytes it reports as sent (the source does
  not read it), or the exception raised.
\<close>

datatype send_result = SendReturns nat | SendRaises exn

text \<open>Lines 84 to 86, the body of the \<open>try\<close>.\<close>

definition send_body :: "send_result \<Rightarrow> effect list \<times> flow" where
  "send_body r =
     (case encode (dumps payload) of
        Inl e \<Rightarrow> ([], Raised e)
      | Inr bs \<Rightarrow>
          (case r of
             SendRaises e \<Rightarrow> ([Send bs], Raised e)
           | SendReturns n \<Rightarrow> ([Send bs, Sleep 3], Next)))"

text \<open>Lines 83 to 93: the body with its two \<open>except\<close> clauses, in the source's order.\<close>

definition write_iteration :: "pystr \<Rightarrow> send_result \<Rightarrow> effect list \<times> flow" where
  "write_iteration addr r =
     (case send_body r of
        (es, Raised e) \<Rightarrow>
          if isinstance e ConnectionResetError \<or> isinstance e BrokenPipeError
             \<or> isinstance e OSError
          then (es @ [Print (lit ''[INFO] Write thread ending for '' @ addr @ lit '': ''
                             @ exn_str e)], Break)
          else if isinstance e socket_timeout then (es, Next)
          else (es, Raised e)
      | (es, f) \<Rightarrow> (es, f))"

text \<open>Lines 82 to 93, \<open>while True\<close>, run on the outcomes of the successive \<open>send\<close> calls.\<close>

fun write_loop :: "pystr \<Rightarrow> send_result list \<Rightarrow> effect list \<times> unit loop_end" where
  "write_loop addr [] = ([], Blocked ())"
| "write_loop addr (r # rs) =
     (case write_iteration addr r of
        (es, Next) \<Rightarrow> (case write_loop addr rs of (es', fin) \<Rightarrow> (es @ es', fin))
      | (es, Break) \<Rightarrow> (es, Exited)
      | (es, Raised e) \<Rightarrow> (es, Propagated e))"

text \<open>Lines 94 to 100: \<open>except Exception\<close> and \<open>finally\<close>.\<close>

definition write_finish :: "pystr \<Rightarrow> unit loop_end \<Rightarrow> effect list \<times> unit thread" where
  "write_finish addr fin =
     (case fin of
        Blocked u \<Rightarrow> ([], Running ())
      | Exited \<Rightarrow> ([Close], Terminated)
      | Propagated e \<Rightarrow>
          ([Print (lit ''[ERROR] write to '' @ addr @ lit '' -> '' @ exn_str e), Close],
           Terminated))"

text \<open>
  \<open>write\<close> (a reserved word of Isabelle, hence \<open>write_thread\<close>): \<open>init\<close> is the
  exception \<open>conn.settimeout\<close> raised, if any; \<open>rs\<close> are the outcomes of the \<open>send\<close> calls.
\<close>

definition write_thread ::
  "pystr \<Rightarrow> exn option \<Rightarrow> send_result list \<Rightarrow> effect list \<times> unit thread" where
  "write_thread addr init rs =
     (case init of
        Some e \<Rightarrow> write_finish addr (Propagated e)
      | None \<Rightarrow>
          (case write_loop addr rs of
             (es, fin) \<Rightarrow> (case write_finish addr fin of (es', t) \<Rightarrow> (es @ es', t))))"

text \<open>The bytes of the text \<open>{"cmd": "ACCOUNT"}\<close>, as \<open>json.dumps\<close> writes the payload.\<close>

definition wire :: "byte list" where
  \<open>wire = map of_nat (lit ''{"cmd": "ACCOUNT"}'')\<close>

subsection \<open>A sample of the library, for the examples\<close>

text \<open>
  Three lines for the examples. The first two are ASCII text in which the escape
  \<open>\ud83d\<close> stands: a heartbeat whose login is that escape, and an object whose type is
  that escape. The third is 100000 opening brackets.
\<close>

definition surrogate_login_line :: pystr where
  \<open>surrogate_login_line = lit ''{"type":"heartbeat","login":"'' @ [92] @ lit ''ud83d"}''\<close>

definition surrogate_type_line :: pystr where
  \<open>surrogate_type_line = lit ''{"type":"'' @ [92] @ lit ''ud83d"}''\<close>

definition deep_line :: pystr where
  "deep_line = replicate 100000 91"

text \<open>
  \<open>sample_loads\<close> agrees with \<open>json.loads\<close> on the lines the examples give it: two plain
  objects, the two objects with the escape, which parse to the lone surrogate U+D83D, the
  number \<open>42\<close>, the brackets, nested too deep for the parser, and text that is not JSON
  (the message of \<open>JSONDecodeError\<close> is not read by the Reader). \<open>sample_repr\<close> is \<open>str\<close>
  on \<open>None\<close> and the booleans.
\<close>

definition sample_loads :: "pystr \<Rightarrow> exn + json" where
  \<open>sample_loads s =
     (if s = lit ''{"type":"heartbeat","login":"alice"}''
      then Inr (JDict [(lit ''type'', JStr (lit ''heartbeat'')), (lit ''login'', JStr (lit ''alice''))])
      else if s = lit ''{"type":"ping"}''
      then Inr (JDict [(lit ''type'', JStr (lit ''ping''))])
      else if s = surrogate_login_line
      then Inr (JDict [(lit ''type'', JStr (lit ''heartbeat'')), (lit ''login'', JStr [0xD83D])])
      else if s = surrogate_type_line
      then Inr (JDict [(lit ''type'', JStr [0xD83D])])
      else if s = lit ''42'' then Inr (JInt 42)
      else if s = deep_line
      then Inl (Exn RecursionError
        (lit ''maximum recursion depth exceeded while decoding a JSON array from a unicode string''))
      else Inl (Exn JSONDecodeError (lit ''Expecting value'')))\<close>

definition sample_repr :: "json \<Rightarrow> pystr" where
  "sample_repr v =
     (case v of
        JNull \<Rightarrow> lit ''None''
      | JBool b \<Rightarrow> (if b then lit ''True'' else lit ''False'')
      | _ \<Rightarrow> [])"

definition sample_lib :: lib where
  "sample_lib = \<lparr>json_loads = sample_loads, py_repr = sample_repr\<rparr>"

text \<open>The text \<open>{addr}\<close> of a peer, \<open>('10.0.0.7', 50000)\<close>.\<close>

definition sample_addr :: pystr where
  "sample_addr = [40, 39] @ lit ''10.0.0.7'' @ [39] @ lit '', 50000)''"

subsection \<open>What is assumed of \<open>json.loads\<close>\<close>

text \<open>
  \<open>json.loads\<close> does not touch a socket, so it raises no \<open>socket.timeout\<close> and no other
  \<open>OSError\<close>. The two facts are hypotheses where a theorem needs them.
\<close>

definition loads_never_times_out :: "lib \<Rightarrow> bool" where
  "loads_never_times_out L = (\<forall>l e. json_loads L l = Inl e \<longrightarrow> \<not> isinstance e socket_timeout)"

definition loads_raises_no_oserror :: "lib \<Rightarrow> bool" where
  "loads_raises_no_oserror L = (\<forall>l e. json_loads L l = Inl e \<longrightarrow> \<not> isinstance e OSError)"

section \<open>Facts about the model\<close>

subsection \<open>Splitting and the inner loop\<close>

lemma split1_line: "NL \<notin> set line \<Longrightarrow> split1 (line @ NL # rest) = (line, rest)"
  by (induction line) (simp_all add: split1_def)

lemma split1_append:
  "NL \<in> set a \<Longrightarrow> split1 (a @ b) = (fst (split1 a), snd (split1 a) @ b)"
proof (induction a)
  case Nil
  then show ?case by simp
next
  case (Cons x a)
  then show ?case
    by (cases "x = NL") (simp_all add: split1_def)
qed

lemma drain_no_newline: "NL \<notin> set buffer \<Longrightarrow> drain L addr buffer = ([], buffer, None)"
  by (simp add: drain.simps)

text \<open>One turn of the inner loop, on a buffer that starts with a complete line.\<close>

lemma drain_line:
  "NL \<notin> set line \<Longrightarrow>
   drain L addr (line @ NL # rest) =
     (case handle_line L addr line of
        (es, Some e) \<Rightarrow> (es, rest, Some e)
      | (es, None) \<Rightarrow> (case drain L addr rest of (es', r) \<Rightarrow> (es @ es', r)))"
  by (subst drain.simps) (simp add: split1_line)

text \<open>When the inner loop ends without an exception, no line feed is left.\<close>

lemma drain_leaves_no_newline:
  "drain L addr buffer = (es, b, None) \<Longrightarrow> NL \<notin> set b"
proof (induction L addr buffer arbitrary: es b rule: drain.induct)
  case (1 L addr buffer)
  show ?case
  proof (cases "NL \<in> set buffer")
    case False
    with "1.prems" show ?thesis by (simp add: drain.simps)
  next
    case True
    obtain hs hx where h: "handle_line L addr (fst (split1 buffer)) = (hs, hx)"
      by (cases "handle_line L addr (fst (split1 buffer))")
    show ?thesis
    proof (cases hx)
      case (Some e)
      with True h "1.prems" show ?thesis by (simp add: drain.simps)
    next
      case None
      obtain ds db dx where d: "drain L addr (snd (split1 buffer)) = (ds, db, dx)"
        by (cases "drain L addr (snd (split1 buffer))")
      from True h None d "1.prems" have "dx = None" "db = b"
        by (simp_all add: drain.simps[of L addr buffer])
      with d have "drain L addr (snd (split1 buffer)) = (ds, b, None)"
        by simp
      with "1.IH"[OF True h[symmetric] None] show ?thesis by simp
    qed
  qed
qed

text \<open>
  An exception that leaves the inner loop was raised by \<open>json.loads\<close>, or is the
  \<open>AttributeError\<close> of \<open>.get\<close> or the \<open>UnicodeEncodeError\<close> of \<open>print\<close>.
\<close>

lemma exn_class_unicode_encode_error: "exn_class (unicode_encode_error text) = UnicodeEncodeError"
  by (simp add: unicode_encode_error_def Let_def)

lemma handle_line_raises:
  "handle_line L addr line = (es, Some e) \<Longrightarrow>
   (\<exists>l. json_loads L l = Inl e) \<or> exn_class e = AttributeError
   \<or> exn_class e = UnicodeEncodeError"
  by (auto simp: handle_line_def dispatch_def py_print_def no_attribute_get_def
      exn_class_unicode_encode_error
      split: if_splits sum.splits json.splits elim!: py_get.elims)

lemma drain_raises:
  "drain L addr buffer = (es, b, Some e) \<Longrightarrow>
   (\<exists>l. json_loads L l = Inl e) \<or> exn_class e = AttributeError
   \<or> exn_class e = UnicodeEncodeError"
proof (induction L addr buffer arbitrary: es b rule: drain.induct)
  case (1 L addr buffer)
  show ?case
  proof (cases "NL \<in> set buffer")
    case False
    with "1.prems" show ?thesis by (simp add: drain.simps)
  next
    case True
    obtain hs hx where h: "handle_line L addr (fst (split1 buffer)) = (hs, hx)"
      by (cases "handle_line L addr (fst (split1 buffer))")
    show ?thesis
    proof (cases hx)
      case (Some e')
      with True h "1.prems" have "e' = e"
        by (simp add: drain.simps[of L addr buffer])
      with h Some show ?thesis
        using handle_line_raises by blast
    next
      case None
      obtain ds db dx where d: "drain L addr (snd (split1 buffer)) = (ds, db, dx)"
        by (cases "drain L addr (snd (split1 buffer))")
      from True h None d "1.prems" have "dx = Some e"
        by (simp add: drain.simps[of L addr buffer])
      with d have "drain L addr (snd (split1 buffer)) = (ds, db, Some e)"
        by simp
      with "1.IH"[OF True h[symmetric] None] show ?thesis by simp
    qed
  qed
qed

text \<open>
  Text that arrives later does not change what the inner loop does with the text it
  already has: draining \<open>a @ b\<close> is draining \<open>a\<close> and then the rest of \<open>a\<close> with \<open>b\<close>.
\<close>

lemma drain_append:
  "drain L addr a = (es, r, x) \<Longrightarrow>
   drain L addr (a @ b) =
     (case x of
        None \<Rightarrow> (case drain L addr (r @ b) of (es', y) \<Rightarrow> (es @ es', y))
      | Some e \<Rightarrow> (es, r @ b, Some e))"
proof (induction L addr a arbitrary: es r x rule: drain.induct)
  case (1 L addr a)
  show ?case
  proof (cases "NL \<in> set a")
    case False
    with "1.prems" show ?thesis
      by (simp add: drain.simps[of L addr a] split: prod.splits)
  next
    case True
    then have sp: "split1 (a @ b) = (fst (split1 a), snd (split1 a) @ b)"
      by (rule split1_append)
    obtain hs hx where h: "handle_line L addr (fst (split1 a)) = (hs, hx)"
      by (cases "handle_line L addr (fst (split1 a))")
    show ?thesis
    proof (cases hx)
      case (Some e)
      with True h "1.prems" have "es = hs" "r = snd (split1 a)" "x = Some e"
        by (simp_all add: drain.simps[of L addr a])
      with True h Some sp show ?thesis
        by (simp add: drain.simps[of L addr "a @ b"])
    next
      case None
      obtain ds dr dx where d: "drain L addr (snd (split1 a)) = (ds, dr, dx)"
        by (cases "drain L addr (snd (split1 a))")
      from True h None d "1.prems" have eq: "es = hs @ ds" "r = dr" "x = dx"
        by (simp_all add: drain.simps[of L addr a])
      have "drain L addr (snd (split1 a) @ b) =
          (case dx of
             None \<Rightarrow> (case drain L addr (dr @ b) of (es', y) \<Rightarrow> (ds @ es', y))
           | Some e \<Rightarrow> (ds, dr @ b, Some e))"
        using "1.IH"[OF True h[symmetric] None d] .
      with True h None sp eq show ?thesis
        by (simp add: drain.simps[of L addr "a @ b"] split: option.splits prod.splits)
    qed
  qed
qed

subsection \<open>One line\<close>

lemma py_strip_Nil_iff: "py_strip s = [] \<longleftrightarrow> list_all py_isspace s"
proof (cases "dropWhile py_isspace s")
  case Nil
  then have "list_all py_isspace s"
    by (simp add: list_all_iff)
  then show ?thesis
    unfolding py_strip_def Nil by simp
next
  case (Cons x xs)
  then have "\<not> py_isspace x"
    using hd_dropWhile[of py_isspace s] by simp
  moreover have "x \<in> set s"
    using Cons set_dropWhileD[of x py_isspace s] by simp
  ultimately show ?thesis
    unfolding py_strip_def Cons by (auto simp: list_all_iff)
qed

lemma handle_line_blank: "py_strip line = [] \<Longrightarrow> handle_line L addr line = ([], None)"
  by (simp add: handle_line_def)

text \<open>
  What the two branches of the dispatch hand to \<open>print\<close>, and what the line gives when
  the text can be printed and when it cannot.
\<close>

lemma dispatch_heartbeat:
  assumes "json_loads L line = Inr (JDict kvs)"
    and "map_of kvs (lit ''type'') = Some (JStr (lit ''heartbeat''))"
  shows "dispatch L addr line =
    (case py_print (heartbeat_log addr
            (case map_of kvs (lit ''login'') of
               None \<Rightarrow> lit ''unknown'' | Some v \<Rightarrow> py_str L v)) of
       Inl e \<Rightarrow> ([Loads line], Some e)
     | Inr printed \<Rightarrow> ([Loads line, printed], None))"
  using assms by (simp add: dispatch_def py_str_def split: option.splits)

lemma dispatch_message:
  assumes "json_loads L line = Inr (JDict kvs)"
    and "map_of kvs (lit ''type'') \<noteq> Some (JStr (lit ''heartbeat''))"
  shows "dispatch L addr line =
    (case py_print (message_log addr
            (case map_of kvs (lit ''type'') of
               None \<Rightarrow> lit ''unknown'' | Some v \<Rightarrow> py_str L v) line) of
       Inl e \<Rightarrow> ([Loads line], Some e)
     | Inr printed \<Rightarrow> ([Loads line, printed], None))"
proof (cases "map_of kvs (lit ''type'')")
  case None
  with assms show ?thesis
    by (simp add: dispatch_def py_str_def lit_def)
next
  case (Some v)
  with assms show ?thesis
    by (simp add: dispatch_def)
qed

lemma unicode_encode_error_class:
  "c \<notin> set (bases UnicodeEncodeError) \<Longrightarrow> \<not> isinstance (unicode_encode_error text) c"
  by (simp add: isinstance_def exn_class_unicode_encode_error)

lemma handle_line_heartbeat:
  assumes "py_strip line \<noteq> []"
    and "json_loads L line = Inr (JDict kvs)"
    and "map_of kvs (lit ''type'') = Some (JStr (lit ''heartbeat''))"
    and "\<not> list_ex surrogate (heartbeat_log addr
            (case map_of kvs (lit ''login'') of
               None \<Rightarrow> lit ''unknown'' | Some v \<Rightarrow> py_str L v))"
  shows "handle_line L addr line =
    ([Loads line,
      Print (heartbeat_log addr
        (case map_of kvs (lit ''login'') of
           None \<Rightarrow> lit ''unknown'' | Some v \<Rightarrow> py_str L v))], None)"
  using assms(1,4) by (simp add: handle_line_def dispatch_heartbeat[OF assms(2,3)] py_print_def)

lemma handle_line_heartbeat_unprintable:
  assumes "py_strip line \<noteq> []"
    and "json_loads L line = Inr (JDict kvs)"
    and "map_of kvs (lit ''type'') = Some (JStr (lit ''heartbeat''))"
    and "list_ex surrogate (heartbeat_log addr
            (case map_of kvs (lit ''login'') of
               None \<Rightarrow> lit ''unknown'' | Some v \<Rightarrow> py_str L v))"
  shows "handle_line L addr line =
    ([Loads line],
     Some (unicode_encode_error (heartbeat_log addr
        (case map_of kvs (lit ''login'') of
           None \<Rightarrow> lit ''unknown'' | Some v \<Rightarrow> py_str L v))))"
  using assms(1,4)
  by (simp add: handle_line_def dispatch_heartbeat[OF assms(2,3)] py_print_def
      unicode_encode_error_class)

lemma handle_line_message:
  assumes "py_strip line \<noteq> []"
    and "json_loads L line = Inr (JDict kvs)"
    and "map_of kvs (lit ''type'') \<noteq> Some (JStr (lit ''heartbeat''))"
    and "\<not> list_ex surrogate (message_log addr
            (case map_of kvs (lit ''type'') of
               None \<Rightarrow> lit ''unknown'' | Some v \<Rightarrow> py_str L v) line)"
  shows "handle_line L addr line =
    ([Loads line,
      Print (message_log addr
        (case map_of kvs (lit ''type'') of
           None \<Rightarrow> lit ''unknown'' | Some v \<Rightarrow> py_str L v) line)], None)"
  using assms(1,4) by (simp add: handle_line_def dispatch_message[OF assms(2,3)] py_print_def)

lemma handle_line_message_unprintable:
  assumes "py_strip line \<noteq> []"
    and "json_loads L line = Inr (JDict kvs)"
    and "map_of kvs (lit ''type'') \<noteq> Some (JStr (lit ''heartbeat''))"
    and "list_ex surrogate (message_log addr
            (case map_of kvs (lit ''type'') of
               None \<Rightarrow> lit ''unknown'' | Some v \<Rightarrow> py_str L v) line)"
  shows "handle_line L addr line =
    ([Loads line],
     Some (unicode_encode_error (message_log addr
        (case map_of kvs (lit ''type'') of
           None \<Rightarrow> lit ''unknown'' | Some v \<Rightarrow> py_str L v) line)))"
  using assms(1,4)
  by (simp add: handle_line_def dispatch_message[OF assms(2,3)] py_print_def
      unicode_encode_error_class)


lemma handle_line_invalid:
  assumes "py_strip line \<noteq> []"
    and "json_loads L line = Inl e"
    and "isinstance e JSONDecodeError"
  shows "handle_line L addr line = ([Loads line, Print (invalid_json_log addr line)], None)"
  using assms by (simp add: handle_line_def dispatch_def)

lemma py_get_not_dict: "\<forall>kvs. v \<noteq> JDict kvs \<Longrightarrow> py_get v k d = Inl (no_attribute_get v)"
  by (cases v) simp_all

lemma no_attribute_get_class:
  "c \<noteq> AttributeError \<Longrightarrow> c \<noteq> Exception \<Longrightarrow> \<not> isinstance (no_attribute_get v) c"
  by (auto simp: no_attribute_get_def isinstance_def)

lemma handle_line_not_dict:
  assumes "py_strip line \<noteq> []"
    and "json_loads L line = Inr v"
    and "\<forall>kvs. v \<noteq> JDict kvs"
  shows "handle_line L addr line = ([Loads line], Some (no_attribute_get v))"
  using assms
  by (simp add: handle_line_def dispatch_def py_get_not_dict no_attribute_get_class)

lemma handle_line_starts_with_loads:
  "py_strip line \<noteq> [] \<Longrightarrow> \<exists>es x. handle_line L addr line = (Loads line # es, x)"
  by (auto simp: handle_line_def dispatch_def py_print_def
      split: sum.splits prod.splits option.splits)

lemma drain_first_line:
  assumes "NL \<notin> set line" and "py_strip line \<noteq> []"
  shows "\<exists>es r. drain L addr (line @ NL # rest) = (Loads line # es, r)"
proof -
  obtain es x where h: "handle_line L addr line = (Loads line # es, x)"
    using handle_line_starts_with_loads[OF assms(2)] by blast
  show ?thesis
    using assms(1) h by (cases x) (auto simp: drain_line split: prod.splits)
qed

lemma heartbeat_is_not_message: "heartbeat_log a x \<noteq> message_log b t l"
  by (simp add: heartbeat_log_def message_log_def lit_def)

lemma sublist_mid: "sublist x (p @ x @ s)"
  by (auto simp: sublist_def)

subsection \<open>The Reader's outer loop\<close>

lemma read_iteration_next_clean:
  assumes "loads_never_times_out L" and "NL \<notin> set buffer"
    and "read_iteration L addr buffer r = (es, b, Next)"
  shows "NL \<notin> set b"
proof (cases r)
  case (RecvRaises e)
  with assms show ?thesis
    by (auto simp: read_iteration_def recv_body_def split: if_splits)
next
  case (RecvBytes bs)
  show ?thesis
  proof (cases "decode_ignore bs = []")
    case True
    with RecvBytes assms show ?thesis
      by (simp add: read_iteration_def recv_body_def)
  next
    case False
    obtain ds db dx where d: "drain L addr (buffer @ decode_ignore bs) = (ds, db, dx)"
      by (cases "drain L addr (buffer @ decode_ignore bs)")
    show ?thesis
    proof (cases dx)
      case None
      with d RecvBytes False assms(3) have "db = b"
        by (simp add: read_iteration_def recv_body_def)
      with d None drain_leaves_no_newline show ?thesis by blast
    next
      case (Some e)
      with d drain_raises have "(\<exists>l. json_loads L l = Inl e) \<or> exn_class e = AttributeError
          \<or> exn_class e = UnicodeEncodeError"
        by blast
      with assms(1) have "\<not> isinstance e socket_timeout"
        by (auto simp: loads_never_times_out_def isinstance_def)
      with d Some RecvBytes False assms(3) show ?thesis
        by (simp add: read_iteration_def recv_body_def split: if_splits)
    qed
  qed
qed

lemma read_loop_blocked_clean:
  assumes "loads_never_times_out L"
  shows "NL \<notin> set buffer \<Longrightarrow> read_loop L addr buffer rs = (es, Blocked b) \<Longrightarrow> NL \<notin> set b"
proof (induction rs arbitrary: buffer es)
  case Nil
  then show ?case by simp
next
  case (Cons r rs)
  obtain ies ib iflow where it: "read_iteration L addr buffer r = (ies, ib, iflow)"
    by (cases "read_iteration L addr buffer r")
  show ?case
  proof (cases iflow)
    case Next
    obtain ls lend where l: "read_loop L addr ib rs = (ls, lend)"
      by (cases "read_loop L addr ib rs")
    from Cons.prems(2) it Next l have "lend = Blocked b" by simp
    moreover from assms Cons.prems(1) it Next have "NL \<notin> set ib"
      using read_iteration_next_clean by blast
    ultimately show ?thesis using Cons.IH l by blast
  next
    case Break
    with Cons.prems(2) it show ?thesis by simp
  next
    case (Raised e)
    with Cons.prems(2) it show ?thesis by simp
  qed
qed

text \<open>A run that is still waiting goes on with the outcomes that follow.\<close>

lemma read_loop_append:
  "read_loop L addr b0 rs0 = (es0, Blocked b) \<Longrightarrow>
   read_loop L addr b0 (rs0 @ rs) =
     (case read_loop L addr b rs of (es, fin) \<Rightarrow> (es0 @ es, fin))"
proof (induction rs0 arbitrary: b0 es0)
  case Nil
  then show ?case by (simp split: prod.splits)
next
  case (Cons r rs0)
  obtain ies ib iflow where it: "read_iteration L addr b0 r = (ies, ib, iflow)"
    by (cases "read_iteration L addr b0 r")
  show ?case
  proof (cases iflow)
    case Next
    obtain ls lend where l: "read_loop L addr ib rs0 = (ls, lend)"
      by (cases "read_loop L addr ib rs0")
    from Cons.prems it Next l have "lend = Blocked b" "es0 = ies @ ls" by simp_all
    with Cons.IH[of ib ls] l it Next show ?thesis
      by (simp split: prod.splits)
  next
    case Break
    with Cons.prems it show ?thesis by simp
  next
    case (Raised e)
    with Cons.prems it show ?thesis by simp
  qed
qed

lemma read_iteration_extends_drain:
  assumes "decode_ignore bs \<noteq> []"
    and "drain L addr (buffer @ decode_ignore bs) = (ds, b, x)"
  shows "\<exists>es f. read_iteration L addr buffer (RecvBytes bs) = (ds @ es, b, f)"
  using assms by (cases x) (simp_all add: read_iteration_def recv_body_def)

lemma read_loop_first_effect:
  assumes "read_iteration L addr buffer r = (x # es, b, f)"
  shows "\<exists>es' fin. read_loop L addr buffer (r # rs) = (x # es', fin)"
  using assms by (cases f) (auto split: prod.splits)

lemma read_loop_first_line:
  assumes "decode_ignore bs \<noteq> []" and "buffer @ decode_ignore bs = line @ [NL]"
    and "NL \<notin> set line" and "py_strip line \<noteq> []"
  shows "\<exists>es fin. read_loop L addr buffer (RecvBytes bs # rs) = (Loads line # es, fin)"
proof -
  obtain ds r where d: "drain L addr (line @ [NL]) = (Loads line # ds, r)"
    using drain_first_line[OF assms(3,4), of L addr "[]"] by auto
  obtain b x where r: "r = (b, x)"
    by (cases r)
  from assms(1,2) d r obtain es f where
    "read_iteration L addr buffer (RecvBytes bs) = ((Loads line # ds) @ es, b, f)"
    using read_iteration_extends_drain[of bs L addr buffer "Loads line # ds" b x] by auto
  then show ?thesis
    using read_loop_first_effect[of L addr buffer "RecvBytes bs" "Loads line" "ds @ es" b f rs]
    by auto
qed

lemma read_first_effect:
  assumes "read_loop L addr [] rs = (x # es, fin)"
  shows "\<exists>es' t. read L addr None rs = (x # es', t)"
  using assms by (auto simp: read_def split: prod.splits)

subsection \<open>Chunks of ASCII text\<close>

lemma oserror_subclasses:
  "isinstance e socket_timeout \<or> isinstance e ConnectionResetError \<or> isinstance e BrokenPipeError
   \<Longrightarrow> isinstance e OSError"
  by (cases e; cases "exn_class e") (auto simp: isinstance_def)

lemma drain_raises_no_oserror:
  assumes "loads_raises_no_oserror L" and "drain L addr buffer = (es, b, Some e)"
  shows "\<not> isinstance e OSError"
proof -
  from drain_raises[OF assms(2)]
  have "(\<exists>l. json_loads L l = Inl e) \<or> exn_class e = AttributeError
      \<or> exn_class e = UnicodeEncodeError" .
  with assms(1) show ?thesis
    by (auto simp: loads_raises_no_oserror_def isinstance_def)
qed

lemma read_iteration_drained:
  assumes "loads_raises_no_oserror L" and "decode_ignore bs \<noteq> []"
    and "drain L addr (buffer @ decode_ignore bs) = (es, b, x)"
  shows "read_iteration L addr buffer (RecvBytes bs) =
    (es, b, case x of None \<Rightarrow> Next | Some e \<Rightarrow> Raised e)"
proof (cases x)
  case None
  with assms show ?thesis by (simp add: read_iteration_def recv_body_def)
next
  case (Some e)
  with assms drain_raises_no_oserror have "\<not> isinstance e OSError" by blast
  with oserror_subclasses have "\<not> isinstance e socket_timeout" "\<not> isinstance e ConnectionResetError"
    "\<not> isinstance e BrokenPipeError" by blast+
  with Some assms show ?thesis by (simp add: read_iteration_def recv_body_def)
qed

text \<open>
  Two chunks whose decoded texts are not empty and add up to the decoded text of the two
  together are read as the one chunk.
\<close>

lemma two_chunks_as_one:
  assumes "loads_raises_no_oserror L"
    and "decode_ignore a \<noteq> []" and "decode_ignore b \<noteq> []"
    and "decode_ignore (a @ b) = decode_ignore a @ decode_ignore b"
  shows "read_loop L addr buffer (RecvBytes a # RecvBytes b # rs) =
         read_loop L addr buffer (RecvBytes (a @ b) # rs)"
proof -
  obtain es r x where d: "drain L addr (buffer @ decode_ignore a) = (es, r, x)"
    by (cases "drain L addr (buffer @ decode_ignore a)")
  have i1: "read_iteration L addr buffer (RecvBytes a) =
      (es, r, case x of None \<Rightarrow> Next | Some e \<Rightarrow> Raised e)"
    using assms(1,2) d by (rule read_iteration_drained)
  have ne: "decode_ignore (a @ b) \<noteq> []"
    using assms(2,4) by simp
  show ?thesis
  proof (cases x)
    case (Some e)
    with drain_append[OF d, of "decode_ignore b"] assms(4)
    have "drain L addr (buffer @ decode_ignore (a @ b)) = (es, r @ decode_ignore b, Some e)"
      by simp
    with assms(1) ne have "read_iteration L addr buffer (RecvBytes (a @ b)) =
        (es, r @ decode_ignore b, Raised e)"
      using read_iteration_drained[of L "a @ b" addr buffer es "r @ decode_ignore b" "Some e"]
      by simp
    with i1 Some show ?thesis by simp
  next
    case None
    obtain es' r' x' where d': "drain L addr (r @ decode_ignore b) = (es', r', x')"
      by (cases "drain L addr (r @ decode_ignore b)")
    have i2: "read_iteration L addr r (RecvBytes b) =
        (es', r', case x' of None \<Rightarrow> Next | Some e \<Rightarrow> Raised e)"
      using assms(1,3) d' by (rule read_iteration_drained)
    from drain_append[OF d, of "decode_ignore b"] None d' assms(4)
    have "drain L addr (buffer @ decode_ignore (a @ b)) = (es @ es', r', x')"
      by simp
    with assms(1) ne have i12: "read_iteration L addr buffer (RecvBytes (a @ b)) =
        (es @ es', r', case x' of None \<Rightarrow> Next | Some e \<Rightarrow> Raised e)"
      using read_iteration_drained[of L "a @ b" addr buffer "es @ es'" r' x']
      by simp
    from i1 None i2 i12 show ?thesis
      by (cases x') (simp_all split: prod.splits)
  qed
qed

lemma utf8_ignore_ascii:
  "list_all (\<lambda>c. c < 0x80) a \<Longrightarrow> utf8_ignore (a @ b) = a @ utf8_ignore b"
  by (induction a) simp_all

lemma decode_ignore_ascii:
  assumes "list_all (\<lambda>c. c < 0x80) a"
  shows "decode_ignore (a @ b) = map unat a @ decode_ignore b"
proof -
  from assms have "list_all (\<lambda>c. c < 0x80) (map unat a)"
    by (induction a) (simp_all add: word_less_nat_alt)
  then show ?thesis
    by (simp add: decode_ignore_def utf8_ignore_ascii)
qed

text \<open>
  Where every received chunk is ASCII and not empty, the Reader does with the chunks, one
  after the other, what it does with all their bytes in one chunk: the same effects in
  the same order, the same buffer or the same end. This is the chunk independence that
  the buffer is there for, on the inputs where decoding chunk by chunk loses nothing.
\<close>

lemma ascii_chunks_as_one:
  assumes "loads_raises_no_oserror L"
  shows "cs \<noteq> [] \<Longrightarrow> list_all (\<lambda>c. c \<noteq> [] \<and> list_all (\<lambda>x. x < 0x80) c) cs \<Longrightarrow>
    read_loop L addr buffer (map RecvBytes cs @ rs) =
    read_loop L addr buffer (RecvBytes (concat cs) # rs)"
proof (induction cs arbitrary: rs rule: rev_induct)
  case Nil
  then show ?case by simp
next
  case (snoc c cs)
  show ?case
  proof (cases "cs = []")
    case True
    then show ?thesis by simp
  next
    case False
    from snoc.prems(2) have all: "list_all (\<lambda>c. c \<noteq> [] \<and> list_all (\<lambda>x. x < 0x80) c) cs"
      and c: "c \<noteq> []" "list_all (\<lambda>x. x < 0x80) c"
      by simp_all
    have asc: "list_all (\<lambda>x. x < 0x80) (concat cs)"
      using all by (induction cs) simp_all
    have ne: "concat cs \<noteq> []"
      using False all by (cases cs) simp_all
    have dc: "decode_ignore (concat cs) = map unat (concat cs)"
      using decode_ignore_ascii[OF asc, of "[]"] by (simp add: decode_ignore_def)
    have dcc: "decode_ignore c = map unat c"
      using decode_ignore_ascii[OF c(2), of "[]"] by (simp add: decode_ignore_def)
    have dall: "decode_ignore (concat cs @ c) = decode_ignore (concat cs) @ decode_ignore c"
      using decode_ignore_ascii[OF asc, of c] dc by simp
    have "read_loop L addr buffer (map RecvBytes (cs @ [c]) @ rs) =
          read_loop L addr buffer (map RecvBytes cs @ RecvBytes c # rs)"
      by simp
    also have "\<dots> = read_loop L addr buffer (RecvBytes (concat cs) # RecvBytes c # rs)"
      using snoc.IH[OF False all] .
    also have "\<dots> = read_loop L addr buffer (RecvBytes (concat cs @ c) # rs)"
      using assms dall ne c(1) dc dcc by (intro two_chunks_as_one) simp_all
    finally show ?thesis by simp
  qed
qed

subsection \<open>The Writer\<close>

lemma payload_on_the_wire: "encode (dumps payload) = Inr wire"
  by (simp add: encode_def dumps_def payload_def wire_def lit_def encode_basestring_ascii_def
      escape_char_def encode_char_def surrogate_def)

lemma wire_bytes: \<open>wire = [0x7B, 0x22, 0x63, 0x6D, 0x64, 0x22, 0x3A, 0x20,
    0x22, 0x41, 0x43, 0x43, 0x4F, 0x55, 0x4E, 0x54, 0x22, 0x7D]\<close>
  by (simp add: wire_def lit_def)

lemma send_body_returns: "send_body (SendReturns n) = ([Send wire, Sleep 3], Next)"
  by (simp add: send_body_def payload_on_the_wire)

lemma send_body_raises: "send_body (SendRaises e) = ([Send wire], Raised e)"
  by (simp add: send_body_def payload_on_the_wire)

lemma write_iteration_returns: "write_iteration addr (SendReturns n) = ([Send wire, Sleep 3], Next)"
  by (simp add: write_iteration_def send_body_returns)

lemma write_iteration_starts_with_send: "\<exists>es f. write_iteration addr r = (Send wire # es, f)"
  by (cases r) (auto simp: write_iteration_def send_body_returns send_body_raises)

lemma write_iteration_sends:
  "write_iteration addr r = (es, f) \<Longrightarrow> Send bs \<in> set es \<Longrightarrow> bs = wire"
  by (cases r) (auto simp: write_iteration_def send_body_returns send_body_raises split: if_splits)

lemma write_loop_sends:
  "write_loop addr rs = (es, fin) \<Longrightarrow> Send bs \<in> set es \<Longrightarrow> bs = wire"
proof (induction rs arbitrary: es fin)
  case Nil
  then show ?case by simp
next
  case (Cons r rs)
  obtain ies iflow where it: "write_iteration addr r = (ies, iflow)"
    by (cases "write_iteration addr r")
  obtain ls lend where l: "write_loop addr rs = (ls, lend)"
    by (cases "write_loop addr rs")
  from Cons.prems(1) it l have "set es \<subseteq> set ies \<union> set ls"
    by (cases iflow) auto
  with Cons.prems(2) have "Send bs \<in> set ies \<or> Send bs \<in> set ls"
    by blast
  with it l Cons.IH write_iteration_sends show ?case
    by blast
qed

lemma write_thread_sends:
  "Send bs \<in> set (fst (write_thread addr init rs)) \<Longrightarrow> bs = wire"
proof (cases init)
  case (Some e)
  then show "Send bs \<in> set (fst (write_thread addr init rs)) \<Longrightarrow> bs = wire"
    by (simp add: write_thread_def write_finish_def)
next
  case None
  obtain ls lend where l: "write_loop addr rs = (ls, lend)"
    by (cases "write_loop addr rs")
  assume "Send bs \<in> set (fst (write_thread addr init rs))"
  with None l have "Send bs \<in> set ls"
    by (cases lend) (auto simp: write_thread_def write_finish_def)
  with l write_loop_sends show "bs = wire"
    by blast
qed

lemma write_loop_cycles:
  "write_loop addr (map SendReturns ns @ rs) =
     (case write_loop addr rs of
        (es, fin) \<Rightarrow> (concat (replicate (length ns) [Send wire, Sleep 3]) @ es, fin))"
  by (induction ns) (simp_all add: write_iteration_returns split: prod.splits)

lemma write_thread_cycles:
  "write_thread addr None (map SendReturns ns @ rs) =
     (case write_thread addr None rs of
        (es, t) \<Rightarrow> (concat (replicate (length ns) [Send wire, Sleep 3]) @ es, t))"
  by (simp add: write_thread_def write_loop_cycles split: prod.splits)

lemma write_loop_head:
  "fst (write_loop addr rs) = [] \<or> (\<exists>es. fst (write_loop addr rs) = Send wire # es)"
proof (cases rs)
  case Nil
  then show ?thesis by simp
next
  case (Cons r rs')
  obtain es f where "write_iteration addr r = (Send wire # es, f)"
    using write_iteration_starts_with_send by blast
  with Cons show ?thesis
    by (cases f) (auto split: prod.splits)
qed

subsection \<open>The sample library\<close>

lemma deep_line_facts:
  "length deep_line = 100000" "NL \<notin> set deep_line" "py_strip deep_line \<noteq> []"
  unfolding deep_line_def
  by (simp_all add: py_strip_Nil_iff list_all_iff py_isspace_def)

lemma not_deep_line:
  "length s < 100000 \<Longrightarrow> s \<noteq> deep_line" "length s < 100000 \<Longrightarrow> deep_line \<noteq> s"
  using deep_line_facts(1) by auto

lemmas sample_defs =
  sample_lib_def sample_loads_def surrogate_login_line_def surrogate_type_line_def lit_def
  not_deep_line

lemma sample_lib_never_times_out: "loads_never_times_out sample_lib"
  by (simp add: loads_never_times_out_def sample_lib_def sample_loads_def isinstance_def)

section \<open>The claims\<close>

subsection \<open>Reader: framing\<close>

text \<open>
  C1 says that however the inbound bytes are cut into received chunks, the Reader extracts
  the same lines as from the bytes in one piece. The Reader decodes each chunk on its own
  (line 31), and that is where the code departs from it: a character of several bytes
  that lies across two chunks is dropped, and a chunk that decodes to the empty string is
  taken for the end of the connection (line 32). The bytes \<open>C3 A9 0A\<close> are the letter
  U+00E9 and a line feed. Received as \<open>C3\<close> and then \<open>A9 0A\<close>, they make the Reader close
  the connection after the first chunk, with no line extracted; received in one chunk,
  they give the line U+00E9 to \<open>json.loads\<close>. With an \<open>a\<close> before them, the chunks \<open>61 C3\<close>
  and \<open>A9 0A\<close> give the line \<open>a\<close>, the single chunk gives the line \<open>a\<close> U+00E9. This holds
  for every behaviour of the library and every peer. (\<open>ascii_chunks_as_one\<close> above shows
  that the property holds for chunks of ASCII.)
\<close>

theorem C1_split_character_changes_lines:
  "read L addr None [RecvBytes [0xC3], RecvBytes [0xA9, 0x0A]] =
     ([Close, Print (lit ''[INFO] Connection closed with '' @ addr)], Terminated)
   \<and> (\<exists>es t. read L addr None [RecvBytes [0xC3, 0xA9, 0x0A]] = (Loads [0xE9] # es, t))
   \<and> (\<exists>es t. read L addr None [RecvBytes [0x61, 0xC3], RecvBytes [0xA9, 0x0A]]
                = (Loads [0x61] # es, t))
   \<and> (\<exists>es t. read L addr None [RecvBytes [0x61, 0xC3, 0xA9, 0x0A]]
                = (Loads [0x61, 0xE9] # es, t))"
proof -
  have d1: "decode_ignore [0xC3] = []"
    by (simp add: decode_ignore_def)
  have d2: "decode_ignore [0xC3, 0xA9, 0x0A] = [0xE9] @ [NL]"
    by (simp add: decode_ignore_def is_cont_def)
  have d3: "decode_ignore [0x61, 0xC3] = [0x61]"
    by (simp add: decode_ignore_def)
  have d4: "decode_ignore [0xA9, 0x0A] = [NL]"
    by (simp add: decode_ignore_def)
  have d5: "decode_ignore [0x61, 0xC3, 0xA9, 0x0A] = [0x61, 0xE9] @ [NL]"
    by (simp add: decode_ignore_def is_cont_def)
  have s: "py_strip [0xE9] \<noteq> []" "py_strip [0x61] \<noteq> []" "py_strip [0x61, 0xE9] \<noteq> []"
    by (simp_all add: py_strip_def py_isspace_def)
  have a: "read L addr None [RecvBytes [0xC3], RecvBytes [0xA9, 0x0A]] =
     ([Close, Print (lit ''[INFO] Connection closed with '' @ addr)], Terminated)"
    by (simp add: read_def read_iteration_def recv_body_def d1 read_finish_def)
  have "\<exists>es fin. read_loop L addr [] [RecvBytes [0xC3, 0xA9, 0x0A]] = (Loads [0xE9] # es, fin)"
    by (rule read_loop_first_line) (simp_all add: d2 s)
  then have b: "\<exists>es t. read L addr None [RecvBytes [0xC3, 0xA9, 0x0A]] = (Loads [0xE9] # es, t)"
    using read_first_effect by blast
  have "read_iteration L addr [] (RecvBytes [0x61, 0xC3]) = ([], [0x61], Next)"
    by (simp add: read_iteration_def recv_body_def d3 drain_no_newline)
  moreover have "\<exists>es fin. read_loop L addr [0x61] [RecvBytes [0xA9, 0x0A]]
      = (Loads [0x61] # es, fin)"
    by (rule read_loop_first_line) (simp_all add: d4 s)
  ultimately have "\<exists>es fin. read_loop L addr [] [RecvBytes [0x61, 0xC3], RecvBytes [0xA9, 0x0A]]
      = (Loads [0x61] # es, fin)"
    by auto
  then have c: "\<exists>es t. read L addr None [RecvBytes [0x61, 0xC3], RecvBytes [0xA9, 0x0A]]
      = (Loads [0x61] # es, t)"
    using read_first_effect by blast
  have "\<exists>es fin. read_loop L addr [] [RecvBytes [0x61, 0xC3, 0xA9, 0x0A]]
      = (Loads [0x61, 0xE9] # es, fin)"
    by (rule read_loop_first_line) (simp_all add: d5 s)
  then have d: "\<exists>es t. read L addr None [RecvBytes [0x61, 0xC3, 0xA9, 0x0A]]
      = (Loads [0x61, 0xE9] # es, t)"
    using read_first_effect by blast
  from a b c d show ?thesis by blast
qed

text \<open>
  C7: whenever the Reader is back at \<open>recv\<close>, waiting for more data, its buffer holds no
  line feed: at most one unfinished line is pending. It holds for every outcome of the
  setup and every sequence of \<open>recv\<close> outcomes, given that \<open>json.loads\<close> raises no
  \<open>socket.timeout\<close> (which line 54 would take for a timeout of \<open>recv\<close>).
\<close>

theorem C7_waiting_buffer_has_no_newline:
  assumes "loads_never_times_out L"
    and "read L addr init rs = (es, Running b)"
  shows "NL \<notin> set b"
proof (cases init)
  case (Some e)
  with assms(2) show ?thesis
    by (simp add: read_def read_finish_def)
next
  case None
  obtain ls lend where l: "read_loop L addr [] rs = (ls, lend)"
    by (cases "read_loop L addr [] rs")
  with None assms(2) have "lend = Blocked b"
    by (cases lend) (simp_all add: read_def read_finish_def)
  with l read_loop_blocked_clean[OF assms(1), of "[]" addr rs ls b] show ?thesis
    by simp
qed

text \<open>
  The bytes of \<open>x\<close>, a line feed and \<open>de\<close>: the Reader warns about the line \<open>x\<close> and waits
  with \<open>de\<close> in its buffer.
\<close>

theorem C7_witness:
  "loads_never_times_out sample_lib
   \<and> read sample_lib sample_addr None [RecvBytes [0x78, 0x0A, 0x64, 0x65]] =
     ([Loads [0x78], Print (invalid_json_log sample_addr [0x78])], Running [0x64, 0x65])
   \<and> NL \<notin> set [0x64, 0x65]"
proof -
  let ?e = "Exn JSONDecodeError (lit ''Expecting value'')"
  have dec: "decode_ignore [0x78, 0x0A, 0x64, 0x65] = [0x78] @ NL # [0x64, 0x65]"
    by (simp add: decode_ignore_def)
  have "json_loads sample_lib [0x78] = Inl ?e"
    by (simp add: sample_defs)
  moreover have "py_strip [0x78] \<noteq> []"
    by (simp add: py_strip_def py_isspace_def)
  moreover have "isinstance ?e JSONDecodeError"
    by (simp add: isinstance_def)
  ultimately have "handle_line sample_lib sample_addr [0x78] =
      ([Loads [0x78], Print (invalid_json_log sample_addr [0x78])], None)"
    by (simp add: handle_line_invalid)
  then have "drain sample_lib sample_addr ([0x78] @ NL # [0x64, 0x65]) =
      ([Loads [0x78], Print (invalid_json_log sample_addr [0x78])], [0x64, 0x65], None)"
    using drain_line[of "[0x78]" sample_lib sample_addr "[0x64, 0x65]"]
    by (simp add: drain_no_newline)
  with dec have r: "read sample_lib sample_addr None [RecvBytes [0x78, 0x0A, 0x64, 0x65]] =
     ([Loads [0x78], Print (invalid_json_log sample_addr [0x78])], Running [0x64, 0x65])"
    by (simp add: read_def read_iteration_def recv_body_def read_finish_def)
  from C7_waiting_buffer_has_no_newline[OF sample_lib_never_times_out r]
    sample_lib_never_times_out r
  show ?thesis
    by blast
qed

subsection \<open>Reader: one extracted line\<close>

text \<open>
  In the theorems below \<open>line\<close> is a line the inner loop extracts, so it holds no line
  feed, and \<open>rest\<close> is the buffer after it. A line that \<open>json.loads\<close> parses has a
  character that is not whitespace, so the blank test of line 41 lets it through; the
  model takes \<open>json.loads\<close> as a parameter and states that as a hypothesis.

  C8: a line that is empty or made of whitespace only is dropped in silence: no call of
  \<open>json.loads\<close>, no log, and the loop goes on with the rest of the buffer.
\<close>

theorem C8_blank_line_discarded:
  assumes "NL \<notin> set line"
    and "list_all py_isspace line"
  shows "handle_line L addr line = ([], None)
    \<and> drain L addr (line @ NL # rest) = drain L addr rest"
  using assms
  by (simp add: drain_line handle_line_blank py_strip_Nil_iff split: prod.splits)

text \<open>A space and a tab, then a line feed and \<open>x\<close>.\<close>

theorem C8_witness:
  "NL \<notin> set [32, 9] \<and> list_all py_isspace [32, 9]
   \<and> handle_line sample_lib sample_addr [32, 9] = ([], None)
   \<and> drain sample_lib sample_addr ([32, 9] @ NL # lit ''x'') = ([], lit ''x'', None)"
proof -
  have h1: "NL \<notin> set [32, 9]" by simp
  have h2: "list_all py_isspace [32, 9]" by (simp add: py_isspace_def)
  have "NL \<notin> set (lit ''x'')" by (simp add: lit_def)
  with C8_blank_line_discarded[OF h1 h2, of sample_lib sample_addr "lit ''x''"] h1 h2
  show ?thesis
    by (simp add: drain_no_newline)
qed

text \<open>
  A line that parses as a JSON object whose \<open>type\<close> is \<open>"heartbeat"\<close>, where the log
  line can be printed: one call of \<open>json.loads\<close> and one printed line, the heartbeat log.
  It starts with \<open>[INFO]\<close>, holds the peer address and the \<open>login\<close> value (\<open>unknown\<close> when
  the object has none), and is no \<open>Message from\<close> log. The loop then goes on with the rest
  of the buffer.
\<close>

lemma heartbeat_line_logged:
  assumes "NL \<notin> set line"
    and "py_strip line \<noteq> []"
    and "json_loads L line = Inr (JDict kvs)"
    and "map_of kvs (lit ''type'') = Some (JStr (lit ''heartbeat''))"
    and "\<not> list_ex surrogate (heartbeat_log addr
            (case map_of kvs (lit ''login'') of
               None \<Rightarrow> lit ''unknown'' | Some v \<Rightarrow> py_str L v))"
  shows "let login = (case map_of kvs (lit ''login'') of
                        None \<Rightarrow> lit ''unknown'' | Some v \<Rightarrow> py_str L v);
             log = heartbeat_log addr login
         in handle_line L addr line = ([Loads line, Print log], None)
          \<and> drain L addr (line @ NL # rest) =
              (case drain L addr rest of (es, r) \<Rightarrow> ([Loads line, Print log] @ es, r))
          \<and> prefix (lit ''[INFO] '') log \<and> sublist addr log \<and> sublist login log
          \<and> (\<forall>a t l. log \<noteq> message_log a t l)"
proof -
  define login where
    "login = (case map_of kvs (lit ''login'') of None \<Rightarrow> lit ''unknown'' | Some v \<Rightarrow> py_str L v)"
  have h: "handle_line L addr line = ([Loads line, Print (heartbeat_log addr login)], None)"
    using assms(2-5) by (simp add: handle_line_heartbeat login_def)
  have d: "drain L addr (line @ NL # rest) =
      (case drain L addr rest of (es, r) \<Rightarrow> ([Loads line, Print (heartbeat_log addr login)] @ es, r))"
    using assms(1) h by (simp add: drain_line split: prod.splits)
  have p: "prefix (lit ''[INFO] '') (heartbeat_log addr login)"
    by (simp add: heartbeat_log_def lit_def)
  have s1: "sublist addr (heartbeat_log addr login)"
    unfolding heartbeat_log_def by (rule sublist_mid)
  have s2: "sublist login (heartbeat_log addr login)"
    using sublist_mid[of login "lit ''[INFO] Heartbeat from '' @ addr @ lit '' (login: ''" "lit '')''"]
    by (simp add: heartbeat_log_def)
  from h d p s1 s2 heartbeat_is_not_message show ?thesis
    unfolding Let_def login_def[symmetric] by blast
qed

text \<open>The heartbeat of \<open>alice\<close>.\<close>

lemma heartbeat_of_alice:
  \<open>drain sample_lib sample_addr (lit ''{"type":"heartbeat","login":"alice"}'' @ [NL]) =
     ([Loads (lit ''{"type":"heartbeat","login":"alice"}''),
       Print (lit ''[INFO] Heartbeat from '' @ sample_addr @ lit '' (login: alice)'')],
      [], None)\<close>
proof -
  let ?line = \<open>lit ''{"type":"heartbeat","login":"alice"}''\<close>
  let ?kvs = "[(lit ''type'', JStr (lit ''heartbeat'')), (lit ''login'', JStr (lit ''alice''))]"
  have h1: "NL \<notin> set ?line"
    by (simp add: lit_def)
  have h2: "py_strip ?line \<noteq> []"
    by (simp add: py_strip_def py_isspace_def lit_def)
  have h3: "json_loads sample_lib ?line = Inr (JDict ?kvs)"
    by (simp add: sample_lib_def sample_loads_def)
  have h4: "map_of ?kvs (lit ''type'') = Some (JStr (lit ''heartbeat''))"
    by simp
  have h5: "\<not> list_ex surrogate (heartbeat_log sample_addr
      (case map_of ?kvs (lit ''login'') of None \<Rightarrow> lit ''unknown'' | Some v \<Rightarrow> py_str sample_lib v))"
    by (simp add: heartbeat_log_def sample_addr_def py_str_def lit_def surrogate_def)
  from heartbeat_line_logged[OF h1 h2 h3 h4 h5, of "[]"] show ?thesis
    by (simp add: Let_def drain_no_newline heartbeat_log_def py_str_def lit_def)
qed

text \<open>
  C4 says that every line that parses as a JSON object whose \<open>type\<close> is \<open>"heartbeat"\<close>
  gives exactly one INFO log with the peer address and the login. The code departs from
  it on a heartbeat whose login cannot be printed. The line
  \<open>{"type":"heartbeat","login":"\ud83d"}\<close> is ASCII on the wire and parses to an object
  whose login is the lone surrogate U+D83D; \<open>print\<close> (line 48) raises
  \<open>UnicodeEncodeError\<close>, which \<open>except json.JSONDecodeError\<close> (line 51) does not catch,
  and the outer handler ends the worker: no INFO log, one ERROR log, the connection
  closed. The handler of line 51 keeps the Reader going on a line that is not JSON; a
  heartbeat that is JSON ends it.
\<close>

theorem C4_surrogate_login_ends_reader:
  "surrogate_login_line \<noteq> []
   \<and> json_loads sample_lib surrogate_login_line =
       Inr (JDict [(lit ''type'', JStr (lit ''heartbeat'')), (lit ''login'', JStr [0xD83D])])
   \<and> read sample_lib sample_addr None [RecvBytes (map of_nat surrogate_login_line @ [0x0A])] =
       ([Loads surrogate_login_line,
         Print (lit ''[ERROR] read from '' @ sample_addr @ lit '' -> '' @ [39] @ lit ''utf-8''
                @ [39] @ lit '' codec can'' @ [39] @ lit ''t encode character '' @ [39, 92]
                @ lit ''ud83d'' @ [39] @ lit '' in position 50: surrogates not allowed''),
         Close,
         Print (lit ''[INFO] Connection closed with '' @ sample_addr)],
        Terminated)"
proof -
  let ?kvs = "[(lit ''type'', JStr (lit ''heartbeat'')), (lit ''login'', JStr [0xD83D])]"
  let ?log = "heartbeat_log sample_addr [0xD83D]"
  have ne: "surrogate_login_line \<noteq> []"
    by (simp add: surrogate_login_line_def lit_def)
  have n: "NL \<notin> set surrogate_login_line"
    by (simp add: surrogate_login_line_def lit_def)
  have s: "py_strip surrogate_login_line \<noteq> []"
    by (simp add: surrogate_login_line_def py_strip_def py_isspace_def lit_def)
  have l: "json_loads sample_lib surrogate_login_line = Inr (JDict ?kvs)"
    by (simp add: sample_defs)
  have t: "map_of ?kvs (lit ''type'') = Some (JStr (lit ''heartbeat''))"
    by simp
  have g: "(case map_of ?kvs (lit ''login'') of
              None \<Rightarrow> lit ''unknown'' | Some v \<Rightarrow> py_str sample_lib v) = [0xD83D]"
    by (simp add: py_str_def lit_def)
  have u: "list_ex surrogate ?log"
    by (simp add: heartbeat_log_def sample_addr_def lit_def surrogate_def)
  have e: "unicode_encode_error ?log =
      Exn UnicodeEncodeError ([39] @ lit ''utf-8''
                @ [39] @ lit '' codec can'' @ [39] @ lit ''t encode character '' @ [39, 92]
                @ lit ''ud83d'' @ [39] @ lit '' in position 50: surrogates not allowed'')"
    by (simp add: unicode_encode_error_def heartbeat_log_def sample_addr_def lit_def
        surrogate_def u_escape_def hex_digit_def)
  have h: "handle_line sample_lib sample_addr surrogate_login_line =
      ([Loads surrogate_login_line], Some (unicode_encode_error ?log))"
    using handle_line_heartbeat_unprintable[OF s l t, of sample_addr] u g by simp
  have d: "drain sample_lib sample_addr (surrogate_login_line @ [NL]) =
      ([Loads surrogate_login_line], [], Some (unicode_encode_error ?log))"
    using drain_line[OF n, of sample_lib sample_addr "[]"] h by simp
  have dec: "decode_ignore (map of_nat surrogate_login_line @ [0x0A]) = surrogate_login_line @ [NL]"
    by (simp add: decode_ignore_def surrogate_login_line_def lit_def)
  have "read sample_lib sample_addr None [RecvBytes (map of_nat surrogate_login_line @ [0x0A])] =
       ([Loads surrogate_login_line,
         Print (lit ''[ERROR] read from '' @ sample_addr @ lit '' -> ''
                @ exn_str (unicode_encode_error ?log)),
         Close,
         Print (lit ''[INFO] Connection closed with '' @ sample_addr)],
        Terminated)"
    using ne
    by (simp add: read_def read_iteration_def recv_body_def read_finish_def dec d
        unicode_encode_error_class)
  with ne l e show ?thesis
    by simp
qed

text \<open>
  A line that parses as a JSON object whose \<open>type\<close> is absent or is not \<open>"heartbeat"\<close>,
  where the log line can be printed: one call of \<open>json.loads\<close> and one printed line. It
  starts with \<open>[INFO]\<close> and holds the peer address, the type (\<open>unknown\<close> when the object
  has none) and the first 200 characters of the line.
\<close>

lemma message_line_logged:
  assumes "NL \<notin> set line"
    and "py_strip line \<noteq> []"
    and "json_loads L line = Inr (JDict kvs)"
    and "map_of kvs (lit ''type'') \<noteq> Some (JStr (lit ''heartbeat''))"
    and "\<not> list_ex surrogate (message_log addr
            (case map_of kvs (lit ''type'') of
               None \<Rightarrow> lit ''unknown'' | Some v \<Rightarrow> py_str L v) line)"
  shows "let msg_type = (case map_of kvs (lit ''type'') of
                           None \<Rightarrow> lit ''unknown'' | Some v \<Rightarrow> py_str L v);
             log = message_log addr msg_type line
         in handle_line L addr line = ([Loads line, Print log], None)
          \<and> drain L addr (line @ NL # rest) =
              (case drain L addr rest of (es, r) \<Rightarrow> ([Loads line, Print log] @ es, r))
          \<and> prefix (lit ''[INFO] '') log \<and> sublist addr log \<and> sublist msg_type log
          \<and> sublist (take 200 line) log"
proof -
  define msg_type where
    "msg_type = (case map_of kvs (lit ''type'') of None \<Rightarrow> lit ''unknown'' | Some v \<Rightarrow> py_str L v)"
  have h: "handle_line L addr line = ([Loads line, Print (message_log addr msg_type line)], None)"
    using assms(2-5) by (simp add: handle_line_message msg_type_def)
  have d: "drain L addr (line @ NL # rest) =
      (case drain L addr rest of
         (es, r) \<Rightarrow> ([Loads line, Print (message_log addr msg_type line)] @ es, r))"
    using assms(1) h by (simp add: drain_line split: prod.splits)
  have p: "prefix (lit ''[INFO] '') (message_log addr msg_type line)"
    by (simp add: message_log_def lit_def)
  have s1: "sublist addr (message_log addr msg_type line)"
    unfolding message_log_def by (rule sublist_mid)
  have s2: "sublist msg_type (message_log addr msg_type line)"
    using sublist_mid[of msg_type "lit ''[INFO] Message from '' @ addr @ lit '' (type: ''"
        "lit ''): '' @ take 200 line @ lit ''...''"]
    by (simp add: message_log_def)
  have s3: "sublist (take 200 line) (message_log addr msg_type line)"
    using sublist_mid[of "take 200 line"
        "lit ''[INFO] Message from '' @ addr @ lit '' (type: '' @ msg_type @ lit ''): ''"
        "lit ''...''"]
    by (simp add: message_log_def)
  from h d p s1 s2 s3 show ?thesis
    unfolding Let_def msg_type_def[symmetric] by blast
qed

text \<open>A \<open>ping\<close>.\<close>

lemma ping_logged:
  \<open>drain sample_lib sample_addr (lit ''{"type":"ping"}'' @ [NL]) =
     ([Loads (lit ''{"type":"ping"}''),
       Print (lit ''[INFO] Message from '' @ sample_addr
              @ lit '' (type: ping): {"type":"ping"}...'')],
      [], None)\<close>
proof -
  let ?line = \<open>lit ''{"type":"ping"}''\<close>
  let ?kvs = "[(lit ''type'', JStr (lit ''ping''))]"
  have h1: "NL \<notin> set ?line"
    by (simp add: lit_def)
  have h2: "py_strip ?line \<noteq> []"
    by (simp add: py_strip_def py_isspace_def lit_def)
  have h3: "json_loads sample_lib ?line = Inr (JDict ?kvs)"
    by (simp add: sample_lib_def sample_loads_def lit_def)
  have h4: "map_of ?kvs (lit ''type'') \<noteq> Some (JStr (lit ''heartbeat''))"
    by (simp add: lit_def)
  have h5: "\<not> list_ex surrogate (message_log sample_addr
      (case map_of ?kvs (lit ''type'') of None \<Rightarrow> lit ''unknown'' | Some v \<Rightarrow> py_str sample_lib v)
      ?line)"
    by (simp add: message_log_def sample_addr_def py_str_def lit_def surrogate_def)
  from message_line_logged[OF h1 h2 h3 h4 h5, of "[]"] show ?thesis
    by (simp add: Let_def drain_no_newline message_log_def py_str_def lit_def)
qed

text \<open>
  C6 says that every line that parses as a JSON object whose \<open>type\<close> is absent or is not
  \<open>"heartbeat"\<close> gives exactly one INFO log with the peer address, the type and the first
  200 characters of the line. The code departs from it on a type that cannot be
  printed. The line \<open>{"type":"\ud83d"}\<close> is ASCII on the wire and parses to an object
  whose type is the lone surrogate U+D83D; \<open>print\<close> (line 50) raises
  \<open>UnicodeEncodeError\<close>, which \<open>except json.JSONDecodeError\<close> (line 51) does not catch,
  and the outer handler ends the worker: no INFO log, one ERROR log, the connection
  closed. The handler of line 51 keeps the Reader going on a line that is not JSON; a
  message that is JSON ends it.
\<close>

theorem C6_surrogate_type_ends_reader:
  "surrogate_type_line \<noteq> []
   \<and> json_loads sample_lib surrogate_type_line = Inr (JDict [(lit ''type'', JStr [0xD83D])])
   \<and> JStr [0xD83D] \<noteq> JStr (lit ''heartbeat'')
   \<and> read sample_lib sample_addr None [RecvBytes (map of_nat surrogate_type_line @ [0x0A])] =
       ([Loads surrogate_type_line,
         Print (lit ''[ERROR] read from '' @ sample_addr @ lit '' -> '' @ [39] @ lit ''utf-8''
                @ [39] @ lit '' codec can'' @ [39] @ lit ''t encode character '' @ [39, 92]
                @ lit ''ud83d'' @ [39] @ lit '' in position 47: surrogates not allowed''),
         Close,
         Print (lit ''[INFO] Connection closed with '' @ sample_addr)],
        Terminated)"
proof -
  let ?kvs = "[(lit ''type'', JStr [0xD83D])]"
  let ?log = "message_log sample_addr [0xD83D] surrogate_type_line"
  have ne: "surrogate_type_line \<noteq> []"
    by (simp add: surrogate_type_line_def lit_def)
  have n: "NL \<notin> set surrogate_type_line"
    by (simp add: surrogate_type_line_def lit_def)
  have s: "py_strip surrogate_type_line \<noteq> []"
    by (simp add: surrogate_type_line_def py_strip_def py_isspace_def lit_def)
  have l: "json_loads sample_lib surrogate_type_line = Inr (JDict ?kvs)"
    by (simp add: sample_defs)
  have t: "map_of ?kvs (lit ''type'') \<noteq> Some (JStr (lit ''heartbeat''))"
    by (simp add: lit_def)
  have g: "(case map_of ?kvs (lit ''type'') of
              None \<Rightarrow> lit ''unknown'' | Some v \<Rightarrow> py_str sample_lib v) = [0xD83D]"
    by (simp add: py_str_def)
  have u: "list_ex surrogate ?log"
    by (simp add: message_log_def sample_addr_def lit_def surrogate_def)
  have e: "unicode_encode_error ?log =
      Exn UnicodeEncodeError ([39] @ lit ''utf-8''
                @ [39] @ lit '' codec can'' @ [39] @ lit ''t encode character '' @ [39, 92]
                @ lit ''ud83d'' @ [39] @ lit '' in position 47: surrogates not allowed'')"
    by (simp add: unicode_encode_error_def message_log_def sample_addr_def
        surrogate_type_line_def lit_def surrogate_def u_escape_def hex_digit_def)
  have h: "handle_line sample_lib sample_addr surrogate_type_line =
      ([Loads surrogate_type_line], Some (unicode_encode_error ?log))"
    using handle_line_message_unprintable[OF s l t, of sample_addr] u g by simp
  have d: "drain sample_lib sample_addr (surrogate_type_line @ [NL]) =
      ([Loads surrogate_type_line], [], Some (unicode_encode_error ?log))"
    using drain_line[OF n, of sample_lib sample_addr "[]"] h by simp
  have dec: "decode_ignore (map of_nat surrogate_type_line @ [0x0A]) = surrogate_type_line @ [NL]"
    by (simp add: decode_ignore_def surrogate_type_line_def lit_def)
  have "read sample_lib sample_addr None [RecvBytes (map of_nat surrogate_type_line @ [0x0A])] =
       ([Loads surrogate_type_line,
         Print (lit ''[ERROR] read from '' @ sample_addr @ lit '' -> ''
                @ exn_str (unicode_encode_error ?log)),
         Close,
         Print (lit ''[INFO] Connection closed with '' @ sample_addr)],
        Terminated)"
    using ne
    by (simp add: read_def read_iteration_def recv_body_def read_finish_def dec d
        unicode_encode_error_class)
  with ne l e show ?thesis
    by (simp add: lit_def)
qed




text \<open>
  C9: a line that parses, but not to an object, ends the Reader. \<open>.get\<close> raises
  \<open>AttributeError\<close>, which is no \<open>JSONDecodeError\<close>; the inner loop stops with the rest of
  the buffer unread. In a run that was waiting with \<open>buffer\<close> when the chunk came, and
  once the lines \<open>before\<close> it have been handled, the Reader prints the error, closes the
  connection, prints the closing line and terminates, whatever follows in the chunk or
  on the socket.
\<close>

theorem C9_non_object_ends_reader:
  assumes "NL \<notin> set line"
    and "py_strip line \<noteq> []"
    and "json_loads L line = Inr v"
    and "\<forall>kvs. v \<noteq> JDict kvs"
    and "read_loop L addr [] rs0 = (es0, Blocked buffer)"
    and "decode_ignore bs \<noteq> []"
    and "buffer @ decode_ignore bs = before @ line @ NL # rest"
    and "drain L addr before = (es1, [], None)"
  shows "drain L addr (line @ NL # rest) = ([Loads line], rest, Some (no_attribute_get v))
    \<and> \<not> isinstance (no_attribute_get v) JSONDecodeError
    \<and> read L addr None (rs0 @ RecvBytes bs # rs1) =
        (es0 @ es1 @ [Loads line,
                Print (lit ''[ERROR] read from '' @ addr @ lit '' -> ''
                       @ exn_str (no_attribute_get v)),
                Close,
                Print (lit ''[INFO] Connection closed with '' @ addr)],
         Terminated)"
proof -
  have d: "drain L addr (line @ NL # rest) = ([Loads line], rest, Some (no_attribute_get v))"
    using assms(1-4) by (simp add: drain_line handle_line_not_dict)
  have "drain L addr (before @ line @ NL # rest) =
      (es1 @ [Loads line], rest, Some (no_attribute_get v))"
    using drain_append[OF assms(8), of "line @ NL # rest"] d by simp
  then have it: "read_iteration L addr buffer (RecvBytes bs) =
      (es1 @ [Loads line], rest, Raised (no_attribute_get v))"
    using assms(6,7)
    by (simp add: read_iteration_def recv_body_def no_attribute_get_class)
  have "read_loop L addr [] (rs0 @ RecvBytes bs # rs1) =
      (es0 @ es1 @ [Loads line], Propagated (no_attribute_get v))"
    using read_loop_append[OF assms(5), of "RecvBytes bs # rs1"] it by simp
  then have "read L addr None (rs0 @ RecvBytes bs # rs1) =
        (es0 @ es1 @ [Loads line,
                Print (lit ''[ERROR] read from '' @ addr @ lit '' -> ''
                       @ exn_str (no_attribute_get v)),
                Close,
                Print (lit ''[INFO] Connection closed with '' @ addr)],
         Terminated)"
    by (simp add: read_def read_finish_def)
  with d no_attribute_get_class[of JSONDecodeError v] show ?thesis
    by simp
qed

text \<open>
  The chunk \<open>x\<close>, \<open>42\<close>, \<open>y\<close>, each with its line feed, as the first of a connection: a
  warning for \<open>x\<close>, the error at \<open>42\<close>, and the line \<open>y\<close> is never looked at.
\<close>

theorem C9_witness:
  "read sample_lib sample_addr None [RecvBytes [0x78, 0x0A, 0x34, 0x32, 0x0A, 0x79, 0x0A]] =
     ([Loads (lit ''x''),
       Print (lit ''[WARN] Invalid JSON from '' @ sample_addr @ lit '': x''),
       Loads (lit ''42''),
       Print (lit ''[ERROR] read from '' @ sample_addr @ lit '' -> '' @ [39] @ lit ''int''
              @ [39] @ lit '' object has no attribute '' @ [39] @ lit ''get'' @ [39]),
       Close,
       Print (lit ''[INFO] Connection closed with '' @ sample_addr)],
      Terminated)"
proof -
  let ?e = "Exn JSONDecodeError (lit ''Expecting value'')"
  have h1: "NL \<notin> set (lit ''42'')"
    by (simp add: lit_def)
  have h2: "py_strip (lit ''42'') \<noteq> []"
    by (simp add: py_strip_def py_isspace_def lit_def)
  have h3: "json_loads sample_lib (lit ''42'') = Inr (JInt 42)"
    by (simp add: sample_defs)
  have h4: "\<forall>kvs. JInt 42 \<noteq> JDict kvs"
    by simp
  have h5: "read_loop sample_lib sample_addr [] [] = ([], Blocked [])"
    by simp
  have h6: "decode_ignore [0x78, 0x0A, 0x34, 0x32, 0x0A, 0x79, 0x0A] \<noteq> []"
    by (simp add: decode_ignore_def)
  have h7: "[] @ decode_ignore [0x78, 0x0A, 0x34, 0x32, 0x0A, 0x79, 0x0A]
      = (lit ''x'' @ [NL]) @ lit ''42'' @ NL # lit ''y'' @ [NL]"
    by (simp add: decode_ignore_def lit_def)
  have "json_loads sample_lib (lit ''x'') = Inl ?e"
    by (simp add: sample_defs)
  moreover have "py_strip (lit ''x'') \<noteq> []"
    by (simp add: py_strip_def py_isspace_def lit_def)
  moreover have "isinstance ?e JSONDecodeError"
    by (simp add: isinstance_def)
  ultimately have "handle_line sample_lib sample_addr (lit ''x'') =
      ([Loads (lit ''x''), Print (invalid_json_log sample_addr (lit ''x''))], None)"
    by (simp add: handle_line_invalid)
  then have h8: "drain sample_lib sample_addr (lit ''x'' @ [NL]) =
      ([Loads (lit ''x''), Print (invalid_json_log sample_addr (lit ''x''))], [], None)"
    using drain_line[of "lit ''x''" sample_lib sample_addr "[]"]
    by (simp add: drain_no_newline lit_def)
  from C9_non_object_ends_reader[OF h1 h2 h3 h4 h5 h6 h7 h8, of "[]"] show ?thesis
    by (simp add: no_attribute_get_def invalid_json_log_def lit_def)
qed

subsection \<open>Writer\<close>

text \<open>
  C2 says that a timeout of \<open>send\<close> is not fatal and the loop goes on. The clause that
  does so, \<open>except socket.timeout: continue\<close> (lines 91 to 93), stands after
  \<open>except (ConnectionResetError, BrokenPipeError, OSError)\<close> (line 87), and
  \<open>socket.timeout\<close> is an \<open>OSError\<close>: the first clause takes the timeout, prints that the
  write thread is ending and leaves the loop. Whatever the later sends would have done,
  the worker closes the connection and terminates.
\<close>

theorem C2_timeout_ends_writer:
  "write_thread addr None (SendRaises (Exn socket_timeout m) # rs) =
     ([Send wire,
       Print (lit ''[INFO] Write thread ending for '' @ addr @ lit '': '' @ m),
       Close], Terminated)"
  by (simp add: write_thread_def write_iteration_def send_body_raises isinstance_def
      write_finish_def)

text \<open>
  C3: what the Writer hands to \<open>send\<close> is always the UTF-8 text of the JSON object
  \<open>{"cmd": "ACCOUNT"}\<close>, as \<open>json.dumps\<close> writes it: it ends with the closing brace and
  holds no line feed. While the sends return, each is followed by one sleep of 3 seconds
  and then by the next send, with nothing between: after \<open>n\<close> sends that returned, the
  Writer has made \<open>n\<close> times a send and a sleep, and goes on as a Writer that starts
  then. (The seconds are the argument of \<open>time.sleep\<close>; the model has no clock.)
\<close>

theorem C3_payload_and_cycles:
  \<open>encode (dumps payload) = Inr wire
   \<and> wire = map of_nat (lit ''{"cmd": "ACCOUNT"}'')
   \<and> last wire = 0x7D \<and> 0x0A \<notin> set wire
   \<and> (\<forall>addr init rs bs. Send bs \<in> set (fst (write_thread addr init rs)) \<longrightarrow> bs = wire)
   \<and> (\<forall>addr ns rs.
        write_thread addr None (map SendReturns ns @ rs) =
          (case write_thread addr None rs of
             (es, t) \<Rightarrow> (concat (replicate (length ns) [Send wire, Sleep 3]) @ es, t)))\<close>
proof -
  have "last wire = 0x7D" "0x0A \<notin> set wire"
    by (simp_all add: wire_bytes)
  with payload_on_the_wire write_thread_sends write_thread_cycles show ?thesis
    by (simp add: wire_def)
qed

text \<open>Two sends that return 18, the length of the payload.\<close>

theorem C3_witness:
  "write_thread sample_addr None [SendReturns 18, SendReturns 18] =
     ([Send wire, Sleep 3, Send wire, Sleep 3], Running ())
   \<and> Send wire \<in> set (fst (write_thread sample_addr None [SendReturns 18, SendReturns 18]))"
proof -
  from C3_payload_and_cycles
  have "write_thread sample_addr None (map SendReturns [18, 18] @ []) =
          (case write_thread sample_addr None [] of
             (es, t) \<Rightarrow> (concat (replicate (length [18::nat, 18]) [Send wire, Sleep 3]) @ es, t))"
    by blast
  then have "write_thread sample_addr None [SendReturns 18, SendReturns 18] =
     ([Send wire, Sleep 3, Send wire, Sleep 3], Running ())"
    by (simp add: write_thread_def write_finish_def numeral_2_eq_2)
  then show ?thesis
    by simp
qed

text \<open>
  C10: the first thing the Writer's loop does is the send. Once \<open>conn.settimeout\<close> has
  returned and the first \<open>send\<close> has an outcome, the first effect of the worker is that
  send; a pass through the body is the send and then, if it returned, the sleep; and in
  no run does a sleep come before the first send.
\<close>

theorem C10_send_before_sleep:
  "(\<exists>es. fst (write_thread addr None (r # rs)) = Send wire # es)
   \<and> (\<forall>n. send_body (SendReturns n) = ([Send wire, Sleep 3], Next))
   \<and> (\<forall>e. send_body (SendRaises e) = ([Send wire], Raised e))
   \<and> (\<forall>init rs' s.
        Sleep s \<notin> set (takeWhile (\<lambda>x. x \<noteq> Send wire) (fst (write_thread addr init rs'))))"
proof -
  have a: "\<exists>es. fst (write_thread addr None (r # rs)) = Send wire # es"
  proof -
    obtain es f where "write_iteration addr r = (Send wire # es, f)"
      using write_iteration_starts_with_send by blast
    then show ?thesis
      by (cases f) (auto simp: write_thread_def split: prod.splits)
  qed
  have b: "Sleep s \<notin> set (takeWhile (\<lambda>x. x \<noteq> Send wire) (fst (write_thread addr init rs')))"
    for init rs' s
  proof (cases init)
    case (Some e)
    then show ?thesis
      by (simp add: write_thread_def write_finish_def)
  next
    case None
    obtain ls lend where l: "write_loop addr rs' = (ls, lend)"
      by (cases "write_loop addr rs'")
    from write_loop_head[of addr rs'] l
    have "ls = [] \<or> (\<exists>es. ls = Send wire # es)" by simp
    then show ?thesis
    proof
      assume "ls = []"
      with None l show ?thesis
        by (cases lend) (simp_all add: write_thread_def write_finish_def)
    next
      assume "\<exists>es. ls = Send wire # es"
      with None l show ?thesis
        by (auto simp: write_thread_def split: prod.splits)
    qed
  qed
  from a b send_body_returns send_body_raises show ?thesis
    by blast
qed

end
